theory Spec2Isabelle
  imports
    Main
    "HOL-Library.AList"
    "HOL-Library.Char_ord"
    "HOL-Library.List_Lexorder"
    "HOL-Library.Multiset"
begin

section \<open>Data model of \<^verbatim>\<open>baseline.ts\<close>\<close>

text \<open>
  The development embeds \<^verbatim>\<open>packages/pyright-internal/src/baseline.ts\<close>. A Uri is
  identified by its text. A rule identifier is a string; \<^verbatim>\<open>undefined\<close> is \<open>None\<close>.
  Line and column numbers are JavaScript numbers that hold integers and are modelled as \<open>int\<close>.
\<close>

type_synonym uri = string
type_synonym DiagnosticRule = string

datatype DiagnosticCategory =
  Error | Warning | Information | UnusedCode | UnreachableCode | Deprecated

datatype BaselineStatus = Baselined | BaselinedWithHint

record Position =
  line :: int
  character :: int

record Range =
  start :: Position
  end' :: Position

text \<open>
  The fields of the class \<^verbatim>\<open>Diagnostic\<close> that \<^verbatim>\<open>baseline.ts\<close> reads or writes.
  \<^verbatim>\<open>getRule()\<close> is the field \<open>rule\<close>; \<^verbatim>\<open>copy(overrides)\<close> is a record update of the
  overridden fields.
\<close>

record Diagnostic =
  category :: DiagnosticCategory
  message :: string
  range' :: Range
  baselineStatus :: "BaselineStatus option"
  rule :: "DiagnosticRule option"

record FileDiagnostics =
  fileUri :: uri
  diagnostics :: "Diagnostic list"

record BaselinedRange =
  startColumn :: int
  endColumn :: int
  lineCount' :: "int option"

text \<open>
  JSON values; an object is the list of its properties in their order. Numbers are
  integers.
\<close>

datatype json =
  JNull | JBool bool | JNum int | JStr string | JArr "json list" | JObj "(string \<times> json) list"

text \<open>
  An entry of the baseline is one JavaScript object. \<open>code\<close> and \<open>brange\<close> are what the
  interface \<^verbatim>\<open>BaselinedDiagnostic\<close> reads of it. An entry that \<^verbatim>\<open>JSON.parse\<close> built
  has its properties in the order of the file, and may have further properties; it is
  carried and written as that object. \<open>parsed\<close> holds the object where it is another one
  than the literal that \<^verbatim>\<open>diagnosticsToBaseline\<close> builds from \<open>code\<close> and \<open>brange\<close>, and
  is \<open>None\<close> for an entry with the properties of the literal in the literal's order.
\<close>

record BaselinedDiagnostic =
  code :: "DiagnosticRule option"
  brange :: BaselinedRange
  parsed :: "json option"

text \<open>
  The object \<^verbatim>\<open>files\<close> is an association list in property order: a JavaScript object
  lists its string keys that are no array indices in the order of their insertion, a key
  occurs once, and a new key is appended (\<^const>\<open>AList.update\<close>). The keys are relative
  paths, none of which is an array index.
\<close>

type_synonym BaselineFiles = "(string \<times> BaselinedDiagnostic list) list"

record BaselineFile =
  files :: BaselineFiles

datatype error = SyntaxError | TypeError | AssertionError

text \<open>
  The file system: the text of every readable file, and the directories made by
  \<^verbatim>\<open>mkdirSync\<close>. \<^verbatim>\<open>readFileSync\<close> throws exactly where \<open>contents\<close> is \<open>None\<close>.
  Making a directory and writing a file succeed.
\<close>

record FileSystem =
  contents :: "uri \<Rightarrow> string option"
  directories :: "uri set"

text \<open>
  Modelled from the spec: \<^verbatim>\<open>fileExists\<close> of \<^verbatim>\<open>common/uri/uriUtils\<close>, which the
  sources do not hold. The spec (3) has it as the explicit check against the file system
  of whether the file of a baseline entry is still there.
\<close>

definition fileExists :: "FileSystem \<Rightarrow> uri \<Rightarrow> bool" where
  "fileExists fs u = (contents fs u \<noteq> None)"

definition mkdirSync :: "FileSystem \<Rightarrow> uri \<Rightarrow> FileSystem" where
  "mkdirSync fs d = fs\<lparr>directories := insert d (directories fs)\<rparr>"

definition writeFileSync :: "FileSystem \<Rightarrow> uri \<Rightarrow> string \<Rightarrow> FileSystem" where
  "writeFileSync fs u text = fs\<lparr>contents := (contents fs)(u \<mapsto> text)\<rparr>"

text \<open>
  What \<^verbatim>\<open>baseline.ts\<close> imports and the sources do not hold is a parameter of the model:
  the Uri operations, \<^verbatim>\<open>JSON.parse\<close> read at the type \<^verbatim>\<open>BaselineFile\<close> (\<open>None\<close> when
  it throws; every entry with the object that was parsed), the comparison function of the
  sort, and the table of the hint tiers with the category of each tier.
\<close>

record externals =
  getRelativePath :: "uri \<Rightarrow> uri \<Rightarrow> string option"
  combinePaths :: "uri \<Rightarrow> string \<Rightarrow> uri"
  getDirectory :: "uri \<Rightarrow> uri"
  JSON_parse :: "string \<Rightarrow> BaselineFile option"
  compareDiagnostics :: "Diagnostic \<Rightarrow> Diagnostic \<Rightarrow> int"
  extraOptionDiagnosticRules :: "(string \<times> DiagnosticRule list) list"
  convertLevelToCategory :: "string \<Rightarrow> DiagnosticCategory"

section \<open>\<^verbatim>\<open>JSON.stringify(result, undefined, 4)\<close>\<close>

definition digit :: "nat \<Rightarrow> char" where
  "digit n = ''0123456789abcdef'' ! n"

fun dec_nat :: "nat \<Rightarrow> string" where
  "dec_nat n = (if n < 10 then [digit n] else dec_nat (n div 10) @ [digit (n mod 10)])"

declare dec_nat.simps [simp del]

definition dec_int :: "int \<Rightarrow> string" where
  "dec_int i = (if i < 0 then CHR ''-'' # dec_nat (nat (- i)) else dec_nat (nat i))"

definition quote_char :: "char \<Rightarrow> string" where
  "quote_char c =
     (if c = CHR 0x22 then [CHR 0x5C, CHR 0x22]
      else if c = CHR 0x5C then [CHR 0x5C, CHR 0x5C]
      else if c = CHR 0x08 then [CHR 0x5C, CHR ''b'']
      else if c = CHR 0x0C then [CHR 0x5C, CHR ''f'']
      else if c = CHR 0x0A then [CHR 0x5C, CHR ''n'']
      else if c = CHR 0x0D then [CHR 0x5C, CHR ''r'']
      else if c = CHR 0x09 then [CHR 0x5C, CHR ''t'']
      else if (of_char c :: nat) < 32
        then [CHR 0x5C, CHR ''u'', CHR ''0'', CHR ''0'',
              digit (of_char c div 16), digit (of_char c mod 16)]
      else [c])"

definition quote :: "string \<Rightarrow> string" where
  "quote s = CHR 0x22 # concat (map quote_char s) @ [CHR 0x22]"

definition indent :: "nat \<Rightarrow> string" where
  "indent n = replicate (4 * n) CHR '' ''"

fun join_lines :: "string list \<Rightarrow> string" where
  "join_lines [] = []"
| "join_lines [x] = x"
| "join_lines (x # y # ys) = x @ CHR '','' # CHR 0x0A # join_lines (y # ys)"

primrec stringify :: "json \<Rightarrow> nat \<Rightarrow> string" where
  "stringify JNull n = ''null''"
| "stringify (JBool b) n = (if b then ''true'' else ''false'')"
| "stringify (JNum i) n = dec_int i"
| "stringify (JStr s) n = quote s"
| "stringify (JArr xs) n =
     (if xs = [] then ''[]''
      else CHR ''['' # CHR 0x0A #
        join_lines (map (\<lambda>f. indent (Suc n) @ f (Suc n)) (map stringify xs))
        @ CHR 0x0A # indent n @ '']'')"
| "stringify (JObj kvs) n =
     (if kvs = [] then ''{}''
      else CHR ''{'' # CHR 0x0A #
        join_lines (map (\<lambda>(k, f). indent (Suc n) @ quote k @ '': '' @ f (Suc n))
                        (map (map_prod id stringify) kvs))
        @ CHR 0x0A # indent n @ ''}'')"

text \<open>
  The object that the literal of \<^verbatim>\<open>diagnosticsToBaseline\<close> (lines 58--65) builds, as
  \<^verbatim>\<open>JSON.stringify\<close> writes it: \<^verbatim>\<open>code\<close>, which is left out when it is
  \<^verbatim>\<open>undefined\<close>, then \<^verbatim>\<open>range\<close> with \<^verbatim>\<open>startColumn\<close>, \<^verbatim>\<open>endColumn\<close> and
  \<^verbatim>\<open>lineCount\<close>.
\<close>

definition literal_json :: "BaselinedDiagnostic \<Rightarrow> json" where
  "literal_json e =
     JObj ((case code e of None \<Rightarrow> [] | Some c \<Rightarrow> [(''code'', JStr c)])
           @ [(''range'',
               JObj ([(''startColumn'', JNum (startColumn (brange e))),
                      (''endColumn'', JNum (endColumn (brange e)))]
                     @ (case lineCount' (brange e) of
                          None \<Rightarrow> []
                        | Some n \<Rightarrow> [(''lineCount'', JNum n)])))])"

text \<open>
  An entry is written as the object it is: a parsed entry with its properties in the order
  of the previous file and with its further properties, an entry of the run as the
  literal.
\<close>

definition entry_json :: "BaselinedDiagnostic \<Rightarrow> json" where
  "entry_json e = (case parsed e of Some object \<Rightarrow> object | None \<Rightarrow> literal_json e)"

definition baseline_json :: "BaselineFile \<Rightarrow> json" where
  "baseline_json b =
     JObj [(''files'', JObj (map (\<lambda>(p, es). (p, JArr (map entry_json es))) (files b)))]"

definition JSON_stringify :: "BaselineFile \<Rightarrow> string" where
  "JSON_stringify b = stringify (baseline_json b) 0"

section \<open>Reading and writing the baseline\<close>

definition lineCount :: "Range \<Rightarrow> int" where
  "lineCount r = line (end' r) - line (start r) + 1"

definition baselineFilePath :: "externals \<Rightarrow> uri \<Rightarrow> uri" where
  "baselineFilePath E rootDir = combinePaths E rootDir ''.basedpyright/baseline.json''"

definition is_error_diagnostic :: "Diagnostic \<Rightarrow> bool" where
  "is_error_diagnostic diagnostic =
     (category diagnostic \<notin> set [Deprecated, UnreachableCode, UnusedCode]
      \<or> baselineStatus diagnostic = Some BaselinedWithHint)"

definition to_baselined :: "Diagnostic \<Rightarrow> BaselinedDiagnostic" where
  "to_baselined diagnostic =
     \<lparr>code = rule diagnostic,
      brange = \<lparr>startColumn = character (start (range' diagnostic)),
                endColumn = character (end' (range' diagnostic)),
                lineCount' = Some (lineCount (range' diagnostic))\<rparr>,
      parsed = None\<rparr>"

text \<open>
  The loop of \<^verbatim>\<open>diagnosticsToBaseline\<close>, with the object \<^verbatim>\<open>baselineData.files\<close> as
  accumulator. The non-null assertion on \<^verbatim>\<open>getRelativePath\<close> followed by
  \<^verbatim>\<open>.toString()\<close> throws a TypeError on \<^verbatim>\<open>undefined\<close>.
\<close>

fun diagnosticsToBaseline_loop ::
  "externals \<Rightarrow> uri \<Rightarrow> FileDiagnostics list \<Rightarrow> BaselineFiles \<Rightarrow> error + BaselineFiles" where
  "diagnosticsToBaseline_loop E rootDir [] acc = Inr acc"
| "diagnosticsToBaseline_loop E rootDir (fileWithDiagnostics # rest) acc =
     (case getRelativePath E rootDir (fileUri fileWithDiagnostics) of
        None \<Rightarrow> Inl TypeError
      | Some filePath \<Rightarrow>
          (let errorDiagnostics = filter is_error_diagnostic (diagnostics fileWithDiagnostics);
               acc1 = (if map_of acc filePath = None then AList.update filePath [] acc else acc)
           in if errorDiagnostics = [] then diagnosticsToBaseline_loop E rootDir rest acc1
              else diagnosticsToBaseline_loop E rootDir rest
                     (AList.map_entry filePath (\<lambda>es. es @ map to_baselined errorDiagnostics) acc1)))"

definition diagnosticsToBaseline ::
  "externals \<Rightarrow> uri \<Rightarrow> FileDiagnostics list \<Rightarrow> error + BaselineFile" where
  "diagnosticsToBaseline E rootDir filesWithDiagnostics =
     (case diagnosticsToBaseline_loop E rootDir filesWithDiagnostics [] of
        Inl e \<Rightarrow> Inl e
      | Inr fs \<Rightarrow> Inr \<lparr>files = fs\<rparr>)"

text \<open>
  \<^verbatim>\<open>getBaselinedErrors\<close>: the \<^verbatim>\<open>try\<close> block holds the read only; \<^verbatim>\<open>JSON.parse\<close> is
  called after it.
\<close>

definition getBaselinedErrors :: "externals \<Rightarrow> FileSystem \<Rightarrow> uri \<Rightarrow> error + BaselineFile" where
  "getBaselinedErrors E fs rootDir =
     (case contents fs (baselineFilePath E rootDir) of
        None \<Rightarrow> Inr \<lparr>files = []\<rparr>
      | Some baselineFileContents \<Rightarrow>
          (case JSON_parse E baselineFileContents of
             None \<Rightarrow> Inl SyntaxError
           | Some b \<Rightarrow> Inr b))"

text \<open>
  \<^verbatim>\<open>getBaselinedErrorsForFile\<close>: \<^verbatim>\<open>if (relativePath)\<close> is false for \<^verbatim>\<open>undefined\<close>
  and for the empty string.
\<close>

definition getBaselinedErrorsForFile ::
  "externals \<Rightarrow> FileSystem \<Rightarrow> uri \<Rightarrow> uri \<Rightarrow> error + BaselinedDiagnostic list" where
  "getBaselinedErrorsForFile E fs rootDir file =
     (case getRelativePath E rootDir file of
        None \<Rightarrow> Inr []
      | Some relativePath \<Rightarrow>
          if relativePath = [] then Inr []
          else (case getBaselinedErrors E fs rootDir of
                  Inl e \<Rightarrow> Inl e
                | Inr b \<Rightarrow>
                    (case map_of (files b) relativePath of
                       None \<Rightarrow> Inr []
                     | Some result \<Rightarrow> Inr result)))"

text \<open>
  The loop over the previous baseline (lines 90--94). An array is truthy also when it is
  empty, so \<^verbatim>\<open>!newBaseline[filePath]\<close> holds exactly when the key is absent.
\<close>

fun merge_previous ::
  "externals \<Rightarrow> FileSystem \<Rightarrow> uri \<Rightarrow> bool \<Rightarrow> BaselineFiles \<Rightarrow> BaselineFiles \<Rightarrow> BaselineFiles" where
  "merge_previous E fs rootDir openFilesOnly [] newBaseline = newBaseline"
| "merge_previous E fs rootDir openFilesOnly ((filePath, entries) # rest) newBaseline =
     merge_previous E fs rootDir openFilesOnly rest
       (if map_of newBaseline filePath = None
           \<and> (openFilesOnly \<or> fileExists fs (combinePaths E rootDir filePath))
        then AList.update filePath entries newBaseline
        else newBaseline)"

text \<open>
  The loop over the sorted keys (lines 98--103). \<^verbatim>\<open>newBaseline[file].length\<close> throws a
  TypeError for a key that the object does not have.
\<close>

fun build_result :: "BaselineFiles \<Rightarrow> string list \<Rightarrow> BaselineFiles \<Rightarrow> error + BaselineFiles" where
  "build_result newBaseline [] result = Inr result"
| "build_result newBaseline (file # rest) result =
     (case map_of newBaseline file of
        None \<Rightarrow> Inl TypeError
      | Some entries \<Rightarrow>
          build_result newBaseline rest
            (if entries \<noteq> [] then AList.update file entries result else result))"

definition writeDiagnosticsToBaselineFile ::
  "externals \<Rightarrow> FileSystem \<Rightarrow> uri \<Rightarrow> FileDiagnostics list \<Rightarrow> bool
     \<Rightarrow> error + (FileSystem \<times> BaselineFile)" where
  "writeDiagnosticsToBaselineFile E fs rootDir filesWithDiagnostics openFilesOnly =
     (case diagnosticsToBaseline E rootDir filesWithDiagnostics of
        Inl e \<Rightarrow> Inl e
      | Inr new \<Rightarrow>
     (case getBaselinedErrors E fs rootDir of
        Inl e \<Rightarrow> Inl e
      | Inr previous \<Rightarrow>
     (let newBaseline = merge_previous E fs rootDir openFilesOnly (files previous) (files new)
      in case build_result newBaseline (sort (map fst newBaseline)) [] of
           Inl e \<Rightarrow> Inl e
         | Inr r \<Rightarrow>
             (let result = \<lparr>files = r\<rparr>;
                  baselineFile = baselineFilePath E rootDir;
                  fs1 = mkdirSync fs (getDirectory E baselineFile);
                  fs2 = writeFileSync fs1 baselineFile (JSON_stringify result)
              in Inr (fs2, result)))))"

section \<open>Matching the diagnostics of a file against its baseline\<close>

text \<open>
  \<^verbatim>\<open>diagnostics.sort(compareDiagnostics)\<close>: the sort of an array is stable, so an
  element goes before the first element that it does not follow. The source sorts the
  array of the caller in place; the model returns the sorted list.
\<close>

fun insert_sorted :: "('a \<Rightarrow> 'a \<Rightarrow> int) \<Rightarrow> 'a \<Rightarrow> 'a list \<Rightarrow> 'a list" where
  "insert_sorted cmp x [] = [x]"
| "insert_sorted cmp x (y # ys) =
     (if cmp x y \<le> 0 then x # y # ys else y # insert_sorted cmp x ys)"

definition array_sort :: "('a \<Rightarrow> 'a \<Rightarrow> int) \<Rightarrow> 'a list \<Rightarrow> 'a list" where
  "array_sort cmp xs = foldr (insert_sorted cmp) xs []"

text \<open>The \<^verbatim>\<open>comparator\<close> option given to \<^verbatim>\<open>diffArrays\<close> (lines 159--165).\<close>

definition comparator :: "BaselinedDiagnostic \<Rightarrow> Diagnostic \<Rightarrow> bool" where
  "comparator baselinedDiagnostic diagnostic =
     (code baselinedDiagnostic = rule diagnostic
      \<and> startColumn (brange baselinedDiagnostic) = character (start (range' diagnostic))
      \<and> endColumn (brange baselinedDiagnostic) = character (end' (range' diagnostic))
      \<and> (lineCount' (brange baselinedDiagnostic) = None
         \<or> lineCount' (brange baselinedDiagnostic) = Some (lineCount (range' diagnostic))))"

text \<open>
  A change object of the package \<^verbatim>\<open>diff\<close>: its values, which are elements of the old
  or of the new array, and the two flags.
\<close>

datatype ('a, 'b) diff_value = OldValue 'a | NewValue 'b

record ('a, 'b) change =
  cvalue :: "('a, 'b) diff_value list"
  added :: bool
  removed :: bool

text \<open>
  Modelled from the spec: the alignment that \<^verbatim>\<open>diffArrays\<close> of the package
  \<^verbatim>\<open>diff\<close> computes, which the sources do not hold. The spec (4.4) describes a
  classic list diff, a longest common subsequence style alignment of the previous entries
  and the current diagnostics under the match predicate. Equal heads are aligned;
  otherwise the alignment that keeps more elements is taken, a removal first when both
  keep as many.
\<close>

datatype ('a, 'b) edit = Keep 'b | Insert 'b | Delete 'a

fun common_count :: "('a, 'b) edit list \<Rightarrow> nat" where
  "common_count [] = 0"
| "common_count (Keep n # es) = Suc (common_count es)"
| "common_count (Insert n # es) = common_count es"
| "common_count (Delete old # es) = common_count es"

fun lcs_edits :: "('a \<Rightarrow> 'b \<Rightarrow> bool) \<Rightarrow> 'a list \<Rightarrow> 'b list \<Rightarrow> ('a, 'b) edit list" where
  "lcs_edits eq [] new = map Insert new"
| "lcs_edits eq (x # old) [] = map Delete (x # old)"
| "lcs_edits eq (x # old) (y # new) =
     (if eq x y then Keep y # lcs_edits eq old new
      else (let del = lcs_edits eq old (y # new);
                ins = lcs_edits eq (x # old) new
            in if common_count ins \<le> common_count del then Delete x # del
               else Insert y # ins))"

text \<open>
  Runs of edits of one kind form one change object; an unchanged run has neither flag and
  holds the elements of the new array.
\<close>

definition unchanged :: "('a, 'b) change \<Rightarrow> bool" where
  "unchanged c = (\<not> added c \<and> \<not> removed c)"

fun add_edit :: "('a, 'b) edit \<Rightarrow> ('a, 'b) change list \<Rightarrow> ('a, 'b) change list" where
  "add_edit (Keep n) cs =
     (case cs of
        c # cs' \<Rightarrow>
          if unchanged c then c\<lparr>cvalue := NewValue n # cvalue c\<rparr> # cs'
          else \<lparr>cvalue = [NewValue n], added = False, removed = False\<rparr> # cs
      | [] \<Rightarrow> [\<lparr>cvalue = [NewValue n], added = False, removed = False\<rparr>])"
| "add_edit (Insert n) cs =
     (case cs of
        c # cs' \<Rightarrow>
          if added c \<and> \<not> removed c then c\<lparr>cvalue := NewValue n # cvalue c\<rparr> # cs'
          else \<lparr>cvalue = [NewValue n], added = True, removed = False\<rparr> # cs
      | [] \<Rightarrow> [\<lparr>cvalue = [NewValue n], added = True, removed = False\<rparr>])"
| "add_edit (Delete old) cs =
     (case cs of
        c # cs' \<Rightarrow>
          if removed c \<and> \<not> added c then c\<lparr>cvalue := OldValue old # cvalue c\<rparr> # cs'
          else \<lparr>cvalue = [OldValue old], added = False, removed = True\<rparr> # cs
      | [] \<Rightarrow> [\<lparr>cvalue = [OldValue old], added = False, removed = True\<rparr>])"

text \<open>
  Modelled from the spec: \<^verbatim>\<open>diffArrays(old, new, { comparator })\<close>, the change
  objects of the alignment above.
\<close>

definition diffArrays :: "'a list \<Rightarrow> 'b list \<Rightarrow> ('a \<Rightarrow> 'b \<Rightarrow> bool) \<Rightarrow> ('a, 'b) change list" where
  "diffArrays old new eq = foldr add_edit (lcs_edits eq old new) []"

text \<open>
  The inner loop over \<^verbatim>\<open>extraOptionDiagnosticRules\<close> (lines 188--198), which stops at
  the first tier whose rules include the rule of the diagnostic.
\<close>

fun hint_copy ::
  "externals \<Rightarrow> Diagnostic \<Rightarrow> DiagnosticRule \<Rightarrow> (string \<times> DiagnosticRule list) list
     \<Rightarrow> Diagnostic option" where
  "hint_copy E diagnostic diagnosticRule [] = None"
| "hint_copy E diagnostic diagnosticRule ((name, get) # rest) =
     (if diagnosticRule \<in> set get
      then Some (diagnostic\<lparr>category := convertLevelToCategory E name,
                            baselineStatus := Some BaselinedWithHint,
                            rule := Some diagnosticRule\<rparr>)
      else hint_copy E diagnostic diagnosticRule rest)"

text \<open>
  The body of the loop over an unchanged run (lines 185--203).
  \<^verbatim>\<open>if (diagnosticRule)\<close> is false for \<^verbatim>\<open>undefined\<close> and for the empty string.
\<close>

definition baselined_copy :: "externals \<Rightarrow> Diagnostic \<Rightarrow> Diagnostic" where
  "baselined_copy E diagnostic =
     (let newDiagnostic =
            (case rule diagnostic of
               None \<Rightarrow> None
             | Some diagnosticRule \<Rightarrow>
                 if diagnosticRule = [] then None
                 else hint_copy E diagnostic diagnosticRule (extraOptionDiagnosticRules E))
      in case newDiagnostic of
           None \<Rightarrow> diagnostic\<lparr>baselineStatus := Some Baselined\<rparr>
         | Some d \<Rightarrow> d)"

fun unchanged_loop ::
  "externals \<Rightarrow> ('a, Diagnostic) diff_value list \<Rightarrow> Diagnostic list \<Rightarrow> error + Diagnostic list" where
  "unchanged_loop E [] result = Inr result"
| "unchanged_loop E (OldValue b # rest) result = Inl AssertionError"
| "unchanged_loop E (NewValue diagnostic # rest) result =
     unchanged_loop E rest (result @ [baselined_copy E diagnostic])"

text \<open>
  \<^verbatim>\<open>change.value as Diagnostic[]\<close>: the cast is not checked. A run that holds an old
  value has no reading as a list of diagnostics, and the model stops there with a
  TypeError.
\<close>

fun as_Diagnostics :: "('a, 'b) diff_value list \<Rightarrow> 'b list option" where
  "as_Diagnostics [] = Some []"
| "as_Diagnostics (OldValue b # rest) = None"
| "as_Diagnostics (NewValue d # rest) = map_option ((#) d) (as_Diagnostics rest)"

fun match_loop ::
  "externals \<Rightarrow> ('a, Diagnostic) change list \<Rightarrow> Diagnostic list \<Rightarrow> error + Diagnostic list" where
  "match_loop E [] result = Inr result"
| "match_loop E (change # rest) result =
     (if removed change then match_loop E rest result
      else if added change then
        (case cvalue change of
           NewValue d # _ \<Rightarrow>
             (case as_Diagnostics (cvalue change) of
                None \<Rightarrow> Inl TypeError
              | Some ds \<Rightarrow> match_loop E rest (result @ ds))
         | _ \<Rightarrow> Inl AssertionError)
      else
        (case unchanged_loop E (cvalue change) result of
           Inl e \<Rightarrow> Inl e
         | Inr result' \<Rightarrow> match_loop E rest result'))"

definition sortDiagnosticsAndMatchBaseline ::
  "externals \<Rightarrow> FileSystem \<Rightarrow> uri \<Rightarrow> uri \<Rightarrow> Diagnostic list \<Rightarrow> error + Diagnostic list" where
  "sortDiagnosticsAndMatchBaseline E fs rootDir file diags =
     (let sorted = array_sort (compareDiagnostics E) diags
      in case getBaselinedErrorsForFile E fs rootDir file of
           Inl e \<Rightarrow> Inl e
         | Inr baselined \<Rightarrow> match_loop E (diffArrays baselined sorted comparator) [])"

section \<open>A sample environment\<close>

text \<open>
  One instance of the parameters, on which the theorems are evaluated: Uris are slash
  separated paths, a relative path starts with \<^verbatim>\<open>./\<close>, and the reader of JSON texts
  accepts objects, arrays, strings, integers and the three literals in any layout. It
  reads a text that is no JSON text of these as \<open>None\<close>. A JSON text that has not the
  shape of a baseline file is outside the model (\<^verbatim>\<open>JSON.parse\<close> returns its value, and
  the code fails on it later); the reader gives \<open>None\<close> for it, and no statement below is
  about such a text.
\<close>

definition sample_getRelativePath :: "uri \<Rightarrow> uri \<Rightarrow> string option" where
  "sample_getRelativePath root child =
     (if Suc (length root) < length child \<and> take (Suc (length root)) child = root @ ''/''
      then Some (''./'' @ drop (Suc (length root)) child)
      else None)"

definition sample_combinePaths :: "uri \<Rightarrow> string \<Rightarrow> uri" where
  "sample_combinePaths root p = root @ ''/'' @ (if take 2 p = ''./'' then drop 2 p else p)"

definition sample_getDirectory :: "uri \<Rightarrow> uri" where
  "sample_getDirectory u = rev (drop 1 (dropWhile (\<lambda>c. c \<noteq> CHR ''/'') (rev u)))"

datatype token =
  TLBrace | TRBrace | TLBracket | TRBracket | TColon | TComma | TString string | TNumber int
  | TNull | TBool bool

datatype lex_state =
  LIdle | LString string | LEscape string | LUnicode string "nat list" | LMinus | LDigits bool nat
  | LWord string

definition digit_value :: "char \<Rightarrow> nat option" where
  "digit_value c =
     (let n = of_char c :: nat
      in if 48 \<le> n \<and> n \<le> 57 then Some (n - 48)
         else if 97 \<le> n \<and> n \<le> 102 then Some (n - 87)
         else if 65 \<le> n \<and> n \<le> 70 then Some (n - 55)
         else None)"

definition decimal_value :: "char \<Rightarrow> nat option" where
  "decimal_value c = (case digit_value c of Some n \<Rightarrow> if n < 10 then Some n else None | None \<Rightarrow> None)"

definition lex_idle :: "char \<Rightarrow> (token list \<times> lex_state) option" where
  "lex_idle c =
     (if c \<in> set [CHR '' '', CHR 0x09, CHR 0x0A, CHR 0x0D] then Some ([], LIdle)
      else if c = CHR ''{'' then Some ([TLBrace], LIdle)
      else if c = CHR ''}'' then Some ([TRBrace], LIdle)
      else if c = CHR ''['' then Some ([TLBracket], LIdle)
      else if c = CHR '']'' then Some ([TRBracket], LIdle)
      else if c = CHR '':'' then Some ([TColon], LIdle)
      else if c = CHR '','' then Some ([TComma], LIdle)
      else if c = CHR 0x22 then Some ([], LString [])
      else if c = CHR ''-'' then Some ([], LMinus)
      else if c \<in> set ''aeflnrstu'' then Some ([], LWord [c])
      else (case decimal_value c of Some n \<Rightarrow> Some ([], LDigits False n) | None \<Rightarrow> None))"

definition word_token :: "string \<Rightarrow> token option" where
  "word_token w =
     (if w = ''null'' then Some TNull
      else if w = ''true'' then Some (TBool True)
      else if w = ''false'' then Some (TBool False)
      else None)"

definition number_token :: "bool \<Rightarrow> nat \<Rightarrow> token" where
  "number_token neg n = TNumber (if neg then - int n else int n)"

definition unescape :: "char \<Rightarrow> char option" where
  "unescape c =
     (if c = CHR 0x22 \<or> c = CHR 0x5C \<or> c = CHR ''/'' then Some c
      else if c = CHR ''b'' then Some (CHR 0x08)
      else if c = CHR ''f'' then Some (CHR 0x0C)
      else if c = CHR ''n'' then Some (CHR 0x0A)
      else if c = CHR ''r'' then Some (CHR 0x0D)
      else if c = CHR ''t'' then Some (CHR 0x09)
      else None)"

fun lex_step :: "lex_state \<Rightarrow> char \<Rightarrow> (token list \<times> lex_state) option" where
  "lex_step LIdle c = lex_idle c"
| "lex_step (LString acc) c =
     (if c = CHR 0x22 then Some ([TString (rev acc)], LIdle)
      else if c = CHR 0x5C then Some ([], LEscape acc)
      else if (of_char c :: nat) < 32 then None
      else Some ([], LString (c # acc)))"
| "lex_step (LEscape acc) c =
     (if c = CHR ''u'' then Some ([], LUnicode acc [])
      else (case unescape c of Some d \<Rightarrow> Some ([], LString (d # acc)) | None \<Rightarrow> None))"
| "lex_step (LUnicode acc ds) c =
     (case digit_value c of
        None \<Rightarrow> None
      | Some d \<Rightarrow>
          if length ds < 3 then Some ([], LUnicode acc (ds @ [d]))
          else (let n = foldl (\<lambda>a x. 16 * a + x) 0 (ds @ [d])
                in if n < 256 then Some ([], LString (char_of n # acc)) else None))"
| "lex_step LMinus c =
     (case decimal_value c of Some n \<Rightarrow> Some ([], LDigits True n) | None \<Rightarrow> None)"
| "lex_step (LDigits neg n) c =
     (case decimal_value c of
        Some d \<Rightarrow> Some ([], LDigits neg (10 * n + d))
      | None \<Rightarrow>
          (case lex_idle c of
             Some (ts, st) \<Rightarrow> Some (number_token neg n # ts, st)
           | None \<Rightarrow> None))"
| "lex_step (LWord acc) c =
     (if c \<in> set ''aeflnrstu'' then Some ([], LWord (c # acc))
      else (case (word_token (rev acc), lex_idle c) of
              (Some t, Some (ts, st)) \<Rightarrow> Some (t # ts, st)
            | _ \<Rightarrow> None))"

fun lex :: "lex_state \<Rightarrow> string \<Rightarrow> token list option" where
  "lex LIdle [] = Some []"
| "lex (LDigits neg n) [] = Some [number_token neg n]"
| "lex (LWord acc) [] = map_option (\<lambda>t. [t]) (word_token (rev acc))"
| "lex st [] = None"
| "lex st (c # cs) =
     (case lex_step st c of
        None \<Rightarrow> None
      | Some (ts, st') \<Rightarrow> map_option ((@) ts) (lex st' cs))"

datatype frame =
  FArr "json list" | FObj "(string \<times> json) list" | FKey "(string \<times> json) list" string

datatype parse_mode = MValue | MArrStart | MObjStart | MKey | MColon string | MAfter json

fun begin_value :: "token \<Rightarrow> frame list \<Rightarrow> (parse_mode \<times> frame list) option" where
  "begin_value (TString s) st = Some (MAfter (JStr s), st)"
| "begin_value (TNumber n) st = Some (MAfter (JNum n), st)"
| "begin_value TNull st = Some (MAfter JNull, st)"
| "begin_value (TBool b) st = Some (MAfter (JBool b), st)"
| "begin_value TLBracket st = Some (MArrStart, FArr [] # st)"
| "begin_value TLBrace st = Some (MObjStart, FObj [] # st)"
| "begin_value t st = None"

text \<open>A key that a text repeats keeps its first place and takes its last value.\<close>

definition members :: "(string \<times> 'a) list \<Rightarrow> (string \<times> 'a) list" where
  "members kvs = foldl (\<lambda>al (k, v). AList.update k v al) [] kvs"

fun parse_step :: "parse_mode \<Rightarrow> frame list \<Rightarrow> token \<Rightarrow> (parse_mode \<times> frame list) option" where
  "parse_step MValue st t = begin_value t st"
| "parse_step MArrStart (FArr acc # st) TRBracket = Some (MAfter (JArr []), st)"
| "parse_step MArrStart st t = begin_value t st"
| "parse_step MObjStart (FObj acc # st) TRBrace = Some (MAfter (JObj []), st)"
| "parse_step MObjStart st (TString k) = Some (MColon k, st)"
| "parse_step MKey st (TString k) = Some (MColon k, st)"
| "parse_step (MColon k) (FObj acc # st) TColon = Some (MValue, FKey acc k # st)"
| "parse_step (MAfter v) (FArr acc # st) TComma = Some (MValue, FArr (v # acc) # st)"
| "parse_step (MAfter v) (FArr acc # st) TRBracket = Some (MAfter (JArr (rev (v # acc))), st)"
| "parse_step (MAfter v) (FKey acc k # st) TComma = Some (MKey, FObj ((k, v) # acc) # st)"
| "parse_step (MAfter v) (FKey acc k # st) TRBrace =
     Some (MAfter (JObj (members (rev ((k, v) # acc)))), st)"
| "parse_step m st t = None"

fun parse_tokens :: "parse_mode \<Rightarrow> frame list \<Rightarrow> token list \<Rightarrow> json option" where
  "parse_tokens (MAfter v) [] [] = Some v"
| "parse_tokens m st [] = None"
| "parse_tokens m st (t # ts) =
     (case parse_step m st t of
        None \<Rightarrow> None
      | Some (m', st') \<Rightarrow> parse_tokens m' st' ts)"

fun json_int :: "json option \<Rightarrow> int option" where
  "json_int (Some (JNum n)) = Some n"
| "json_int v = None"

fun read_range :: "json option \<Rightarrow> BaselinedRange option" where
  "read_range (Some (JObj kvs)) =
     (let m = map_of kvs
      in case (json_int (m ''startColumn''), json_int (m ''endColumn'')) of
           (Some s, Some e) \<Rightarrow>
             (case m ''lineCount'' of
                None \<Rightarrow> Some \<lparr>startColumn = s, endColumn = e, lineCount' = None\<rparr>
              | Some (JNum n) \<Rightarrow> Some \<lparr>startColumn = s, endColumn = e, lineCount' = Some n\<rparr>
              | Some _ \<Rightarrow> None)
         | _ \<Rightarrow> None)"
| "read_range v = None"

text \<open>
  The entry that a parsed object is: its typed reading, with the object itself where it is
  not the literal of that reading.
\<close>

definition as_parsed :: "json \<Rightarrow> DiagnosticRule option \<Rightarrow> BaselinedRange \<Rightarrow> BaselinedDiagnostic" where
  "as_parsed object c r =
     (let e = \<lparr>code = c, brange = r, parsed = None\<rparr>
      in if object = literal_json e then e else e\<lparr>parsed := Some object\<rparr>)"

fun read_entry :: "json \<Rightarrow> BaselinedDiagnostic option" where
  "read_entry (JObj kvs) =
     (let m = map_of kvs
      in case read_range (m ''range'') of
           None \<Rightarrow> None
         | Some r \<Rightarrow>
             (case m ''code'' of
                None \<Rightarrow> Some (as_parsed (JObj kvs) None r)
              | Some (JStr c) \<Rightarrow> Some (as_parsed (JObj kvs) (Some c) r)
              | Some _ \<Rightarrow> None))"
| "read_entry v = None"

fun those_list :: "'a option list \<Rightarrow> 'a list option" where
  "those_list [] = Some []"
| "those_list (None # xs) = None"
| "those_list (Some x # xs) = map_option ((#) x) (those_list xs)"

fun read_file :: "string \<times> json \<Rightarrow> (string \<times> BaselinedDiagnostic list) option" where
  "read_file (p, JArr xs) = map_option (Pair p) (those_list (map read_entry xs))"
| "read_file (p, v) = None"

fun read_baseline :: "json \<Rightarrow> BaselineFile option" where
  "read_baseline (JObj kvs) =
     (case map_of kvs ''files'' of
        Some (JObj fs) \<Rightarrow>
          map_option (\<lambda>al. \<lparr>files = al\<rparr>) (those_list (map read_file fs))
      | _ \<Rightarrow> None)"
| "read_baseline v = None"

definition sample_JSON_parse :: "string \<Rightarrow> BaselineFile option" where
  "sample_JSON_parse text =
     (case lex LIdle text of
        None \<Rightarrow> None
      | Some ts \<Rightarrow>
          (case parse_tokens MValue [] ts of
             None \<Rightarrow> None
           | Some v \<Rightarrow> read_baseline v))"

definition compare3 :: "'a::linorder \<Rightarrow> 'a \<Rightarrow> int" where
  "compare3 a b = (if a < b then - 1 else if b < a then 1 else 0)"

definition compare_rule :: "DiagnosticRule option \<Rightarrow> DiagnosticRule option \<Rightarrow> int" where
  "compare_rule a b =
     (case (a, b) of
        (None, None) \<Rightarrow> 0
      | (None, Some y) \<Rightarrow> - 1
      | (Some x, None) \<Rightarrow> 1
      | (Some x, Some y) \<Rightarrow> compare3 x y)"

text \<open>
  Modelled from the spec: \<^verbatim>\<open>compareDiagnostics\<close>, which the sources do not hold. The
  spec (4.2) orders the diagnostics by start line, start column and rule identifier; a
  diagnostic without a rule goes first among those of one position.
\<close>

definition sample_compareDiagnostics :: "Diagnostic \<Rightarrow> Diagnostic \<Rightarrow> int" where
  "sample_compareDiagnostics d1 d2 =
     (if compare3 (line (start (range' d1))) (line (start (range' d2))) \<noteq> 0
      then compare3 (line (start (range' d1))) (line (start (range' d2)))
      else if compare3 (character (start (range' d1))) (character (start (range' d2))) \<noteq> 0
      then compare3 (character (start (range' d1))) (character (start (range' d2)))
      else compare_rule (rule d1) (rule d2))"

text \<open>
  The hint tiers of the configuration reference (\<^verbatim>\<open>docs/configuration/config-files.md\<close>):
  the rules whose default level is \<^verbatim>\<open>unused\<close>, \<^verbatim>\<open>unreachable\<close> or \<^verbatim>\<open>deprecated\<close>.
\<close>

definition sample_extraOptionDiagnosticRules :: "(string \<times> DiagnosticRule list) list" where
  "sample_extraOptionDiagnosticRules =
     [(''unused'', [''reportUnusedClass'', ''reportUnusedImport'', ''reportUnusedFunction'',
                    ''reportUnusedVariable'', ''reportUnusedParameter'']),
      (''unreachable'', [''reportUnreachable'', ''reportUnusedExcept'']),
      (''deprecated'', [''reportDeprecated'', ''reportTypeCommentUsage''])]"

definition sample_convertLevelToCategory :: "string \<Rightarrow> DiagnosticCategory" where
  "sample_convertLevelToCategory level =
     (if level = ''unused'' then UnusedCode
      else if level = ''unreachable'' then UnreachableCode
      else if level = ''deprecated'' then Deprecated
      else if level = ''warning'' then Warning
      else if level = ''information'' then Information
      else Error)"

definition sample :: externals where
  "sample =
     \<lparr>getRelativePath = sample_getRelativePath,
      combinePaths = sample_combinePaths,
      getDirectory = sample_getDirectory,
      JSON_parse = sample_JSON_parse,
      compareDiagnostics = sample_compareDiagnostics,
      extraOptionDiagnosticRules = sample_extraOptionDiagnosticRules,
      convertLevelToCategory = sample_convertLevelToCategory\<rparr>"

definition diag :: "DiagnosticCategory \<Rightarrow> string \<Rightarrow> int \<Rightarrow> int \<Rightarrow> int \<Rightarrow> int
    \<Rightarrow> DiagnosticRule option \<Rightarrow> Diagnostic" where
  "diag c m l1 c1 l2 c2 r =
     \<lparr>category = c, message = m,
      range' = \<lparr>start = \<lparr>line = l1, character = c1\<rparr>, end' = \<lparr>line = l2, character = c2\<rparr>\<rparr>,
      baselineStatus = None, rule = r\<rparr>"

definition entry :: "DiagnosticRule option \<Rightarrow> int \<Rightarrow> int \<Rightarrow> int option \<Rightarrow> BaselinedDiagnostic" where
  "entry c s e n =
     \<lparr>code = c, brange = \<lparr>startColumn = s, endColumn = e, lineCount' = n\<rparr>, parsed = None\<rparr>"

definition disk :: "(uri \<times> string) list \<Rightarrow> FileSystem" where
  "disk fs = \<lparr>contents = map_of fs, directories = {}\<rparr>"

section \<open>Derived notions used in the statements\<close>

text \<open>
  The entries that \<^verbatim>\<open>diagnosticsToBaseline\<close> writes under a path: those of the
  diagnostics that pass its filter, over the files of the run with that relative path.
\<close>

definition baselined_for :: "externals \<Rightarrow> uri \<Rightarrow> string \<Rightarrow> FileDiagnostics list \<Rightarrow> BaselinedDiagnostic list" where
  "baselined_for E rootDir p fwd =
     concat (map (\<lambda>f. map to_baselined (filter is_error_diagnostic (diagnostics f)))
                 (filter (\<lambda>f. getRelativePath E rootDir (fileUri f) = Some p) fwd))"

definition nonempty :: "('k \<Rightarrow> 'a list option) \<Rightarrow> 'k \<Rightarrow> 'a list option" where
  "nonempty m k = (case m k of None \<Rightarrow> None | Some es \<Rightarrow> if es = [] then None else Some es)"

definition entries_of :: "('k \<Rightarrow> 'a list option) \<Rightarrow> 'k \<Rightarrow> 'a list" where
  "entries_of m k = (case m k of None \<Rightarrow> [] | Some es \<Rightarrow> es)"

definition pick :: "('k \<times> 'a list) list \<Rightarrow> 'k \<Rightarrow> ('k \<times> 'a list) list" where
  "pick nb k = (case map_of nb k of Some es \<Rightarrow> if es = [] then [] else [(k, es)] | None \<Rightarrow> [])"

definition written :: "BaselineFiles \<Rightarrow> BaselineFiles" where
  "written nb = concat (map (pick nb) (sort (map fst nb)))"

text \<open>
  What the comparator of the diff reads of an entry, the rule and the range, and the
  baseline as the list of its paths with that of every entry. An entry is in the layout of
  \<^verbatim>\<open>diagnosticsToBaseline\<close> when it is the object literal of that function.
\<close>

definition fingerprint :: "BaselinedDiagnostic \<Rightarrow> DiagnosticRule option \<times> BaselinedRange" where
  "fingerprint e = (code e, brange e)"

definition fingerprints :: "BaselineFile \<Rightarrow> (string \<times> (DiagnosticRule option \<times> BaselinedRange) list) list" where
  "fingerprints b = map (\<lambda>(p, es). (p, map fingerprint es)) (files b)"

definition literal_entries :: "BaselineFile \<Rightarrow> bool" where
  "literal_entries b = list_all (\<lambda>(p, es). list_all (\<lambda>e. parsed e = None) es) (files b)"

text \<open>
  The side of an edit script that holds the elements of the new array, each with the flag
  that it lies in an unchanged run, and what the loop over the change objects returns for
  an element with that flag.
\<close>

fun new_side :: "('a, 'b) edit list \<Rightarrow> (bool \<times> 'b) list" where
  "new_side [] = []"
| "new_side (Keep d # es) = (True, d) # new_side es"
| "new_side (Insert d # es) = (False, d) # new_side es"
| "new_side (Delete b # es) = new_side es"

definition matched_flags :: "'a list \<Rightarrow> 'b list \<Rightarrow> ('a \<Rightarrow> 'b \<Rightarrow> bool) \<Rightarrow> bool list" where
  "matched_flags old new eq = map fst (new_side (lcs_edits eq old new))"

definition reported :: "externals \<Rightarrow> bool \<Rightarrow> Diagnostic \<Rightarrow> Diagnostic" where
  "reported E m d = (if m then baselined_copy E d else d)"

definition added_ok :: "('a, 'b) change list \<Rightarrow> bool" where
  "added_ok cs = (\<forall>c\<in>set cs. added c \<and> \<not> removed c \<longrightarrow> (\<exists>d vs. cvalue c = NewValue d # vs))"

fun edit_result :: "externals \<Rightarrow> ('a, Diagnostic) edit \<Rightarrow> Diagnostic list" where
  "edit_result E (Keep d) = [baselined_copy E d]"
| "edit_result E (Insert d) = [d]"
| "edit_result E (Delete b) = []"

text \<open>
  The order that a comparison function gives: \<open>a\<close> precedes \<open>b\<close> when the function does not
  put \<open>a\<close> after \<open>b\<close>, and two elements tie when each precedes the other (the function
  takes them for equal). The function orders the elements of a list consistently when any
  two of them are comparable and the order is transitive; the order is total on the list
  when, moreover, only equal elements tie. Two lists keep the same order of ties when the
  elements that tie with an element of the first list appear in both lists in the same
  order.
\<close>

abbreviation precedes :: "('a \<Rightarrow> 'a \<Rightarrow> int) \<Rightarrow> 'a \<Rightarrow> 'a \<Rightarrow> bool" where
  "precedes cmp \<equiv> (\<lambda>a b. cmp a b \<le> 0)"

definition ties :: "('a \<Rightarrow> 'a \<Rightarrow> int) \<Rightarrow> 'a \<Rightarrow> 'a \<Rightarrow> bool" where
  "ties cmp a b = (cmp a b \<le> 0 \<and> cmp b a \<le> 0)"

definition total_preorder_on_list :: "('a \<Rightarrow> 'a \<Rightarrow> int) \<Rightarrow> 'a list \<Rightarrow> bool" where
  "total_preorder_on_list cmp xs =
     ((\<forall>a\<in>set xs. \<forall>b\<in>set xs. cmp a b \<le> 0 \<or> cmp b a \<le> 0)
      \<and> (\<forall>a\<in>set xs. \<forall>b\<in>set xs. \<forall>c\<in>set xs. cmp a b \<le> 0 \<and> cmp b c \<le> 0 \<longrightarrow> cmp a c \<le> 0))"

definition no_ties :: "('a \<Rightarrow> 'a \<Rightarrow> int) \<Rightarrow> 'a list \<Rightarrow> bool" where
  "no_ties cmp xs = (\<forall>a\<in>set xs. \<forall>b\<in>set xs. ties cmp a b \<longrightarrow> a = b)"

definition same_tie_order :: "('a \<Rightarrow> 'a \<Rightarrow> int) \<Rightarrow> 'a list \<Rightarrow> 'a list \<Rightarrow> bool" where
  "same_tie_order cmp xs ys = (\<forall>a\<in>set xs. filter (ties cmp a) ys = filter (ties cmp a) xs)"

section \<open>A sample project\<close>

text \<open>
  A project at \<^verbatim>\<open>/p\<close> in the sample environment. Its baseline file lists three
  files, of which \<^verbatim>\<open>gone.py\<close> is no longer on the disk; the second entry of
  \<^verbatim>\<open>a.py\<close> has the old format without a line count.
\<close>

definition sample_previous :: BaselineFile where
  "sample_previous =
     \<lparr>files =
        [(''./z.py'', [entry (Some ''reportCallIssue'') 8 12 (Some 1)]),
         (''./gone.py'', [entry None 0 3 (Some 2)]),
         (''./a.py'', [entry (Some ''reportAttributeAccessIssue'') 4 10 (Some 1),
                       entry (Some ''reportDeprecated'') 0 3 None])]\<rparr>"

definition sample_disk :: FileSystem where
  "sample_disk =
     disk [(''/p/.basedpyright/baseline.json'', JSON_stringify sample_previous),
           (''/p/a.py'', ''import os''), (''/p/b.py'', ''import re''),
           (''/p/c.py'', ''pass''), (''/p/z.py'', ''pass'')]"

text \<open>The diagnostics of \<^verbatim>\<open>a.py\<close>, in the order of their emission.\<close>

definition sample_diagnostics :: "Diagnostic list" where
  "sample_diagnostics =
     [diag Error ''attribute'' 15 4 15 10 (Some ''reportAttributeAccessIssue''),
      diag Warning ''deprecated'' 20 0 20 3 (Some ''reportDeprecated''),
      diag Error ''index'' 2 4 2 10 (Some ''reportIndexIssue'')]"

text \<open>The files and diagnostics of one run that updates the baseline.\<close>

definition sample_run :: "FileDiagnostics list" where
  "sample_run =
     [\<lparr>fileUri = ''/p/b.py'',
       diagnostics = [diag Error ''index'' 3 1 3 5 (Some ''reportIndexIssue''),
                      diag UnusedCode ''import'' 0 7 0 9 (Some ''reportUnusedImport'')]\<rparr>,
      \<lparr>fileUri = ''/p/a.py'',
       diagnostics =
         [(diag Error ''attribute'' 15 4 15 10 (Some ''reportAttributeAccessIssue''))
            \<lparr>baselineStatus := Some Baselined\<rparr>,
          (diag Deprecated ''deprecated'' 20 0 20 3 (Some ''reportDeprecated''))
            \<lparr>baselineStatus := Some BaselinedWithHint\<rparr>,
          diag Deprecated ''alias'' 22 0 22 6 (Some ''reportDeprecated'')]\<rparr>,
      \<lparr>fileUri = ''/p/c.py'',
       diagnostics = [diag UnreachableCode ''dead'' 1 0 2 0 None]\<rparr>]"

definition sample_written :: BaselineFile where
  "sample_written =
     \<lparr>files =
        [(''./a.py'', [entry (Some ''reportAttributeAccessIssue'') 4 10 (Some 1),
                       entry (Some ''reportDeprecated'') 0 3 (Some 1)]),
         (''./b.py'', [entry (Some ''reportIndexIssue'') 1 5 (Some 1)]),
         (''./z.py'', [entry (Some ''reportCallIssue'') 8 12 (Some 1)])]\<rparr>"

text \<open>An environment in which one rule belongs to two hint tiers.\<close>

definition overlapping :: externals where
  "overlapping =
     sample\<lparr>extraOptionDiagnosticRules :=
       [(''unused'', [''reportUnusedImport'']),
        (''unreachable'', [''reportUnnecessaryComparison'', ''reportUnreachable'']),
        (''deprecated'', [''reportUnnecessaryComparison'', ''reportDeprecated''])]\<rparr>"


definition sample_run_again :: "FileDiagnostics list" where
  "sample_run_again =
     \<lparr>fileUri = ''/p/z.py'',
      diagnostics = [diag Error ''call'' 7 8 7 12 (Some ''reportCallIssue'')]\<rparr>
     # rev sample_run"

definition sample_disk_after :: FileSystem where
  "sample_disk_after =
     writeFileSync (mkdirSync sample_disk ''/p/.basedpyright'')
       ''/p/.basedpyright/baseline.json'' (JSON_stringify sample_written)"

text \<open>A project whose baseline lists an issue of the rule with the two tiers.\<close>

definition overlapping_disk :: FileSystem where
  "overlapping_disk =
     disk [(''/p/.basedpyright/baseline.json'',
            JSON_stringify
              \<lparr>files = [(''./a.py'', [entry (Some ''reportUnnecessaryComparison'') 3 9 (Some 1)])]\<rparr>)]"


text \<open>
  Two projects whose baseline files list one entry of \<^verbatim>\<open>z.py\<close>, with the same rule
  and range. The first file is as this program writes it; the second was not written by
  this program and has the range in front of the rule and the columns in another order.
  The run of the sample project on the open files carries the entry over in each.
\<close>

definition plain_previous :: BaselineFile where
  "plain_previous = \<lparr>files = [(''./z.py'', [entry (Some ''reportCallIssue'') 8 12 (Some 1)])]\<rparr>"

definition plain_disk :: FileSystem where
  "plain_disk = disk [(''/p/.basedpyright/baseline.json'', JSON_stringify plain_previous)]"

definition plain_disk_after :: FileSystem where
  "plain_disk_after =
     writeFileSync (mkdirSync plain_disk ''/p/.basedpyright'')
       ''/p/.basedpyright/baseline.json'' (JSON_stringify sample_written)"

definition foreign_entry :: json where
  "foreign_entry =
     JObj [(''range'', JObj [(''lineCount'', JNum 1), (''endColumn'', JNum 12),
                             (''startColumn'', JNum 8)]),
           (''code'', JStr ''reportCallIssue'')]"

definition foreign_disk :: FileSystem where
  "foreign_disk =
     disk [(''/p/.basedpyright/baseline.json'',
            stringify (JObj [(''files'', JObj [(''./z.py'', JArr [foreign_entry])])]) 0)]"

definition foreign_previous :: BaselineFile where
  "foreign_previous =
     \<lparr>files =
        [(''./z.py'', [(entry (Some ''reportCallIssue'') 8 12 (Some 1))
                         \<lparr>parsed := Some foreign_entry\<rparr>])]\<rparr>"

definition foreign_written :: BaselineFile where
  "foreign_written =
     \<lparr>files =
        [(''./a.py'', [entry (Some ''reportAttributeAccessIssue'') 4 10 (Some 1),
                       entry (Some ''reportDeprecated'') 0 3 (Some 1)]),
         (''./b.py'', [entry (Some ''reportIndexIssue'') 1 5 (Some 1)]),
         (''./z.py'', [(entry (Some ''reportCallIssue'') 8 12 (Some 1))
                         \<lparr>parsed := Some foreign_entry\<rparr>])]\<rparr>"

definition foreign_disk_after :: FileSystem where
  "foreign_disk_after =
     writeFileSync (mkdirSync foreign_disk ''/p/.basedpyright'')
       ''/p/.basedpyright/baseline.json'' (JSON_stringify foreign_written)"

text \<open>
  Four diagnostics of one file in the order of their emission, of which the second and the
  fourth, of one rule, start at one position; the same four in another order that leaves
  the second in front of the fourth; and the four as the sort returns them.
\<close>

definition tied_diagnostics :: "Diagnostic list" where
  "tied_diagnostics =
     [diag Error ''late'' 3 0 3 4 (Some ''reportIndexIssue''),
      diag Error ''first'' 1 0 1 5 (Some ''reportCallIssue''),
      diag Error ''early'' 0 2 0 6 None,
      diag Error ''second'' 1 0 1 9 (Some ''reportCallIssue'')]"

definition tied_diagnostics_again :: "Diagnostic list" where
  "tied_diagnostics_again =
     [diag Error ''first'' 1 0 1 5 (Some ''reportCallIssue''),
      diag Error ''second'' 1 0 1 9 (Some ''reportCallIssue''),
      diag Error ''late'' 3 0 3 4 (Some ''reportIndexIssue''),
      diag Error ''early'' 0 2 0 6 None]"

definition tied_diagnostics_sorted :: "Diagnostic list" where
  "tied_diagnostics_sorted =
     [diag Error ''early'' 0 2 0 6 None,
      diag Error ''first'' 1 0 1 5 (Some ''reportCallIssue''),
      diag Error ''second'' 1 0 1 9 (Some ''reportCallIssue''),
      diag Error ''late'' 3 0 3 4 (Some ''reportIndexIssue'')]"
section \<open>Properties of the loops\<close>

lemma update_absent: "map_of al k = None \<Longrightarrow> AList.update k v al = al @ [(k, v)]"
  by (induction al) (auto split: if_splits)

lemma loop_step_map:
  "map_of (if errs = [] then (if map_of acc fp = None then AList.update fp [] acc else acc)
           else AList.map_entry fp (\<lambda>es. es @ errs)
                 (if map_of acc fp = None then AList.update fp [] acc else acc)) q
   = (if q = fp then Some (entries_of (map_of acc) fp @ errs) else map_of acc q)"
  by (auto simp: AList.map_of_map_entry AList.update_conv' entries_of_def split: option.splits)

lemma loop_step_distinct:
  "distinct (map fst acc) \<Longrightarrow>
   distinct (map fst (if errs = [] then (if map_of acc fp = None then AList.update fp [] acc else acc)
           else AList.map_entry fp f
                 (if map_of acc fp = None then AList.update fp [] acc else acc)))"
  by (simp add: AList.distinct_map_entry AList.distinct_update)

lemma diagnosticsToBaseline_loop_distinct:
  "diagnosticsToBaseline_loop E rootDir fwd acc = Inr res \<Longrightarrow> distinct (map fst acc) \<Longrightarrow>
   distinct (map fst res)"
proof (induction fwd arbitrary: acc)
  case Nil
  then show ?case by simp
next
  case (Cons f fwd)
  from Cons.prems(1) obtain fp where fp: "getRelativePath E rootDir (fileUri f) = Some fp"
    by (auto split: option.splits)
  show ?case
    using Cons.prems fp
    by (auto simp: Let_def split: if_splits
        intro!: Cons.IH AList.distinct_map_entry AList.distinct_update)
qed

lemma diagnosticsToBaseline_loop_map:
  "diagnosticsToBaseline_loop E rootDir fwd acc = Inr res \<Longrightarrow>
   map_of res p =
     (if \<exists>f\<in>set fwd. getRelativePath E rootDir (fileUri f) = Some p
      then Some (entries_of (map_of acc) p @ baselined_for E rootDir p fwd)
      else map_of acc p)"
proof (induction fwd arbitrary: acc)
  case Nil
  then show ?case by simp
next
  case (Cons f fwd)
  from Cons.prems(1) obtain fp where fp: "getRelativePath E rootDir (fileUri f) = Some fp"
    by (auto split: option.splits)
  define errs where "errs = map to_baselined (filter is_error_diagnostic (diagnostics f))"
  define acc' where "acc' = (if errs = [] then (if map_of acc fp = None then AList.update fp [] acc else acc)
           else AList.map_entry fp (\<lambda>es. es @ errs)
                 (if map_of acc fp = None then AList.update fp [] acc else acc))"
  have run: "diagnosticsToBaseline_loop E rootDir fwd acc' = Inr res"
    using Cons.prems fp by (auto simp: Let_def acc'_def errs_def split: if_splits)
  have m: "map_of acc' q = (if q = fp then Some (entries_of (map_of acc) fp @ errs) else map_of acc q)" for q
    unfolding acc'_def by (rule loop_step_map)
  have b: "baselined_for E rootDir p (f # fwd) = (if p = fp then errs else []) @ baselined_for E rootDir p fwd"
    using fp by (auto simp: baselined_for_def errs_def)
  have none: "baselined_for E rootDir p fwd = []"
    if "\<forall>f\<in>set fwd. getRelativePath E rootDir (fileUri f) \<noteq> Some p"
    using that by (simp add: baselined_for_def filter_empty_conv [THEN iffD2])
  show ?case
    using Cons.IH [OF run] fp none
    by (auto simp: m b entries_of_def)
qed

lemma diagnosticsToBaseline_map:
  assumes "diagnosticsToBaseline E rootDir fwd = Inr b"
  shows "map_of (files b) p =
     (if \<exists>f\<in>set fwd. getRelativePath E rootDir (fileUri f) = Some p
      then Some (baselined_for E rootDir p fwd) else None)"
    and "distinct (map fst (files b))"
proof -
  from assms obtain res where r: "diagnosticsToBaseline_loop E rootDir fwd [] = Inr res" "b = \<lparr>files = res\<rparr>"
    by (auto simp: diagnosticsToBaseline_def split: sum.splits)
  show "map_of (files b) p =
     (if \<exists>f\<in>set fwd. getRelativePath E rootDir (fileUri f) = Some p
      then Some (baselined_for E rootDir p fwd) else None)"
    using diagnosticsToBaseline_loop_map [OF r(1), of p] r(2) by (simp add: entries_of_def)
  show "distinct (map fst (files b))"
    using diagnosticsToBaseline_loop_distinct [OF r(1)] r(2) by simp
qed

lemma merge_previous_map:
  "map_of (merge_previous E fs rootDir flag prev nb) p =
     (case map_of nb p of
        Some es \<Rightarrow> Some es
      | None \<Rightarrow> if flag \<or> fileExists fs (combinePaths E rootDir p) then map_of prev p else None)"
proof (induction prev arbitrary: nb)
  case Nil
  then show ?case by (simp split: option.splits)
next
  case (Cons a prev)
  obtain k es where a: "a = (k, es)" by (cases a)
  show ?case
    unfolding a by (auto simp: Cons.IH AList.update_conv' split: option.splits)
qed

lemma merge_previous_distinct:
  "distinct (map fst nb) \<Longrightarrow> distinct (map fst (merge_previous E fs rootDir flag prev nb))"
proof (induction prev arbitrary: nb)
  case Nil
  then show ?case by simp
next
  case (Cons a prev)
  obtain k es where a: "a = (k, es)" by (cases a)
  show ?case
    unfolding a using Cons.prems by (simp add: Cons.IH AList.distinct_update)
qed

lemma build_result_eq:
  "set ks \<subseteq> fst ` set nb \<Longrightarrow> distinct ks \<Longrightarrow> set ks \<inter> fst ` set acc = {} \<Longrightarrow>
   build_result nb ks acc = Inr (acc @ concat (map (pick nb) ks))"
proof (induction ks arbitrary: acc)
  case Nil
  then show ?case by simp
next
  case (Cons k ks)
  from Cons.prems(1) obtain es where es: "map_of nb k = Some es"
    by (cases "map_of nb k") (auto simp: map_of_eq_None_iff)
  have absent: "map_of acc k = None"
    using Cons.prems(3) by (auto simp: map_of_eq_None_iff)
  let ?acc = "if es \<noteq> [] then AList.update k es acc else acc"
  have acc': "?acc = acc @ pick nb k"
    using es absent by (simp add: pick_def update_absent)
  have disj: "set ks \<inter> fst ` set ?acc = {}"
    using Cons.prems(2,3) by (auto simp: acc' pick_def es)
  have "build_result nb (k # ks) acc = build_result nb ks ?acc"
    using es by simp
  also have "\<dots> = Inr (?acc @ concat (map (pick nb) ks))"
    using Cons.prems(1,2) disj by (intro Cons.IH) auto
  finally show ?case by (simp add: acc')
qed

lemma map_fst_picks: "map fst (concat (map (pick nb) ks)) = filter (\<lambda>k. nonempty (map_of nb) k \<noteq> None) ks"
  by (induction ks) (auto simp: pick_def nonempty_def split: option.splits)

lemma map_of_picks:
  "map_of (concat (map (pick nb) ks)) k = (if k \<in> set ks then nonempty (map_of nb) k else None)"
  by (induction ks) (auto simp: pick_def nonempty_def map_add_def split: option.splits)

lemma set_picks: "(k, es) \<in> set (concat (map (pick nb) ks)) \<Longrightarrow> es \<noteq> []"
  by (induction ks) (auto simp: pick_def split: option.splits if_splits)


lemma build_result_sorted:
  "distinct (map fst nb) \<Longrightarrow> build_result nb (sort (map fst nb)) [] = Inr (written nb)"
  using build_result_eq [of "sort (map fst nb)" nb "[]"] by (simp add: written_def)

lemma written_keys:
  "distinct (map fst nb) \<Longrightarrow>
   sorted (map fst (written nb)) \<and> distinct (map fst (written nb))"
  by (simp add: written_def map_fst_picks sorted_filter [where f = "\<lambda>x. x", simplified])

lemma written_map: "map_of (written nb) = nonempty (map_of nb)"
proof
  fix k
  show "map_of (written nb) k = nonempty (map_of nb) k"
  proof (cases "map_of nb k")
    case None
    then have "k \<notin> fst ` set nb" by (simp add: map_of_eq_None_iff)
    then show ?thesis by (simp add: written_def map_of_picks nonempty_def None)
  next
    case (Some es)
    then have "k \<in> fst ` set nb" by (force dest: map_of_SomeD)
    then show ?thesis by (simp add: written_def map_of_picks)
  qed
qed

lemma written_nonempty: "(k, es) \<in> set (written nb) \<Longrightarrow> es \<noteq> []"
  unfolding written_def by (rule set_picks)

lemma sorted_alist_unique:
  assumes "sorted (map fst xs)" "distinct (map fst xs)" "sorted (map fst ys)" "distinct (map fst ys)"
    and "map_of xs = map_of ys"
  shows "xs = ys"
proof -
  have s: "set xs = set ys"
    using assms(2,4,5) by (simp add: map_of_inject_set)
  have "inj_on fst (set xs)"
    using assms(2) by (simp add: distinct_map)
  then have "inj_on fst (set xs \<union> set ys)" by (simp add: s)
  then show ?thesis
    using assms(1-4) s by (rule map_sorted_distinct_set_unique)
qed

lemma write_unfold:
  assumes "diagnosticsToBaseline E rootDir fwd = Inr new"
    and "getBaselinedErrors E fs rootDir = Inr previous"
  shows "writeDiagnosticsToBaselineFile E fs rootDir fwd flag =
     Inr (writeFileSync (mkdirSync fs (getDirectory E (baselineFilePath E rootDir)))
            (baselineFilePath E rootDir)
            (JSON_stringify \<lparr>files = written (merge_previous E fs rootDir flag (files previous) (files new))\<rparr>),
          \<lparr>files = written (merge_previous E fs rootDir flag (files previous) (files new))\<rparr>)"
proof -
  have "distinct (map fst (files new))"
    using assms(1) by (rule diagnosticsToBaseline_map(2))
  then have "distinct (map fst (merge_previous E fs rootDir flag (files previous) (files new)))"
    by (rule merge_previous_distinct)
  then show ?thesis
    using assms by (simp add: writeDiagnosticsToBaselineFile_def Let_def build_result_sorted)
qed

lemma write_cases:
  assumes "writeDiagnosticsToBaselineFile E fs rootDir fwd flag = Inr (fs', result)"
  shows "\<exists>new previous.
    diagnosticsToBaseline E rootDir fwd = Inr new
    \<and> getBaselinedErrors E fs rootDir = Inr previous
    \<and> result = \<lparr>files = written (merge_previous E fs rootDir flag (files previous) (files new))\<rparr>
    \<and> fs' = writeFileSync (mkdirSync fs (getDirectory E (baselineFilePath E rootDir)))
            (baselineFilePath E rootDir) (JSON_stringify result)"
proof -
  from assms obtain new where n: "diagnosticsToBaseline E rootDir fwd = Inr new"
    by (cases "diagnosticsToBaseline E rootDir fwd") (auto simp: writeDiagnosticsToBaselineFile_def)
  from assms n obtain previous where p: "getBaselinedErrors E fs rootDir = Inr previous"
    by (cases "getBaselinedErrors E fs rootDir") (auto simp: writeDiagnosticsToBaselineFile_def)
  show ?thesis
    using assms write_unfold [OF n p, of flag] n p by auto
qed

lemma write_contents:
  assumes "writeDiagnosticsToBaselineFile E fs rootDir fwd flag = Inr (fs', result)"
  shows "contents fs' = (contents fs)(baselineFilePath E rootDir \<mapsto> JSON_stringify result)"
  using write_cases [OF assms] by (auto simp: writeFileSync_def mkdirSync_def)

lemma nonempty_merge_twice:
  assumes keep: "\<And>p. keep1 p \<Longrightarrow> keep2 p"
    and m1: "\<And>p. m1 p = (case new p of Some es \<Rightarrow> Some es | None \<Rightarrow> if keep1 p then prev p else None)"
    and m2: "\<And>p. m2 p = (case new p of Some es \<Rightarrow> Some es | None \<Rightarrow> if keep2 p then nonempty m1 p else None)"
  shows "nonempty m2 = nonempty m1"
proof
  fix p
  show "nonempty m2 p = nonempty m1 p"
  proof (cases "new p")
    case None
    show ?thesis
    proof (cases "keep1 p")
      case True
      then have "keep2 p" by (rule keep)
      then have "m2 p = nonempty m1 p" using None by (simp add: m2)
      then show ?thesis by (simp add: nonempty_def split: option.splits)
    next
      case False
      then have "m1 p = None" using None by (simp add: m1)
      then have "nonempty m1 p = None" by (simp add: nonempty_def)
      moreover from this have "m2 p = None" using None by (simp add: m2)
      ultimately show ?thesis by (simp add: nonempty_def)
    qed
  next
    case (Some es)
    then show ?thesis by (simp add: nonempty_def m1 m2)
  qed
qed

lemma new_side_append: "new_side (xs @ ys) = new_side xs @ new_side ys"
  by (induction xs rule: new_side.induct) auto

lemma new_side_Insert: "new_side (map Insert new) = map (Pair False) new"
  by (induction new) auto

lemma new_side_Delete: "new_side (map Delete old) = []"
  by (induction old) auto

lemma new_side_snd: "map snd (new_side (lcs_edits eq old new)) = new"
  by (induction eq old new rule: lcs_edits.induct)
     (auto simp: new_side_Insert new_side_Delete Let_def comp_def)

lemma new_side_matched:
  "(True, d) \<in> set (new_side (lcs_edits eq old new)) \<Longrightarrow> \<exists>b\<in>set old. eq b d"
  by (induction eq old new rule: lcs_edits.induct)
     (auto simp: new_side_Insert new_side_Delete Let_def split: if_splits)

lemma added_ok_add_edit: "added_ok cs \<Longrightarrow> added_ok (add_edit e cs)"
  by (cases e; cases cs) (auto simp: added_ok_def unchanged_def)

lemma added_ok_foldr: "added_ok (foldr add_edit es [])"
proof (induction es)
  case Nil
  show ?case by (simp add: added_ok_def)
next
  case (Cons e es)
  then show ?case by (simp add: added_ok_add_edit)
qed

lemma match_loop_add_edit:
  assumes "added_ok cs"
  shows "match_loop E (add_edit e cs) acc = match_loop E cs (acc @ edit_result E e)"
proof (cases e)
  case (Keep d)
  then show ?thesis
    by (cases cs) (auto simp: unchanged_def)
next
  case (Insert d)
  show ?thesis
  proof (cases cs)
    case Nil
    then show ?thesis using Insert by simp
  next
    case (Cons c cs')
    show ?thesis
    proof (cases "added c \<and> \<not> removed c")
      case True
      with assms Cons obtain d' vs where "cvalue c = NewValue d' # vs"
        by (auto simp: added_ok_def)
      then show ?thesis
        using Insert Cons True by (cases "as_Diagnostics vs") auto
    next
      case False
      then show ?thesis using Insert Cons by auto
    qed
  qed
next
  case (Delete b)
  then show ?thesis
    by (cases cs) auto
qed

lemma match_loop_foldr:
  "match_loop E (foldr add_edit es []) acc = Inr (acc @ concat (map (edit_result E) es))"
proof (induction es arbitrary: acc)
  case Nil
  then show ?case by simp
next
  case (Cons e es)
  show ?case
    by (simp add: match_loop_add_edit [OF added_ok_foldr] Cons.IH)
qed

lemma edit_result_new_side:
  "concat (map (edit_result E) es) = map (\<lambda>(m, d). reported E m d) (new_side es)"
  by (induction es rule: new_side.induct) (auto simp: reported_def)

lemma match_loop_diffArrays:
  "match_loop E (diffArrays old new eq) [] =
     Inr (map2 (reported E) (matched_flags old new eq) new)"
proof -
  have z: "new_side (lcs_edits eq old new) = zip (matched_flags old new eq) new"
    using new_side_snd [of eq old new]
    by (metis matched_flags_def zip_map_fst_snd)
  show ?thesis
    by (simp add: diffArrays_def match_loop_foldr edit_result_new_side z)
qed

lemma length_matched_flags: "length (matched_flags old new eq) = length new"
  using new_side_snd [of eq old new]
  by (metis matched_flags_def length_map)

lemma matched_flags_matched:
  assumes "i < length new" "matched_flags old new eq ! i"
  shows "\<exists>b\<in>set old. eq b (new ! i)"
proof -
  have z: "new_side (lcs_edits eq old new) = zip (matched_flags old new eq) new"
    using new_side_snd [of eq old new]
    by (metis matched_flags_def zip_map_fst_snd)
  have "(matched_flags old new eq ! i, new ! i) \<in> set (new_side (lcs_edits eq old new))"
    unfolding z using assms(1) length_matched_flags [of old new eq]
    by (metis in_set_zip fst_conv snd_conv)
  then show ?thesis
    using assms(2) by (auto dest: new_side_matched)
qed

lemma sortDiagnosticsAndMatchBaseline_eq:
  assumes "getBaselinedErrorsForFile E fs rootDir file = Inr baselined"
  shows "sortDiagnosticsAndMatchBaseline E fs rootDir file diags =
     Inr (map2 (reported E)
            (matched_flags baselined (array_sort (compareDiagnostics E) diags) comparator)
            (array_sort (compareDiagnostics E) diags))"
  using assms by (simp add: sortDiagnosticsAndMatchBaseline_def match_loop_diffArrays Let_def)

lemma total_preorder_on_list_total:
  "total_preorder_on_list cmp xs \<Longrightarrow> a \<in> set xs \<Longrightarrow> b \<in> set xs \<Longrightarrow> cmp a b \<le> 0 \<or> cmp b a \<le> 0"
  unfolding total_preorder_on_list_def by blast

lemma total_preorder_on_list_trans:
  "total_preorder_on_list cmp xs \<Longrightarrow> a \<in> set xs \<Longrightarrow> b \<in> set xs \<Longrightarrow> c \<in> set xs \<Longrightarrow>
   cmp a b \<le> 0 \<Longrightarrow> cmp b c \<le> 0 \<Longrightarrow> cmp a c \<le> 0"
  unfolding total_preorder_on_list_def by blast

lemma total_preorder_on_list_refl:
  "total_preorder_on_list cmp xs \<Longrightarrow> a \<in> set xs \<Longrightarrow> ties cmp a a"
  unfolding total_preorder_on_list_def ties_def by blast

lemma no_ties_eq:
  "no_ties cmp xs \<Longrightarrow> a \<in> set xs \<Longrightarrow> b \<in> set xs \<Longrightarrow> ties cmp a b \<Longrightarrow> a = b"
  unfolding no_ties_def by blast

lemma mset_insert_sorted: "mset (insert_sorted cmp x ys) = add_mset x (mset ys)"
  by (induction ys) auto

lemma mset_array_sort: "mset (array_sort cmp xs) = mset xs"
  by (induction xs) (auto simp: array_sort_def mset_insert_sorted)

lemma set_insert_sorted: "set (insert_sorted cmp x ys) = insert x (set ys)"
  by (induction ys) auto

lemma set_array_sort: "set (array_sort cmp xs) = set xs"
  using mset_eq_setD [OF mset_array_sort] .

lemma array_sort_Cons: "array_sort cmp (x # xs) = insert_sorted cmp x (array_sort cmp xs)"
  by (simp add: array_sort_def)

lemma sorted_insert_sorted:
  assumes "total_preorder_on_list cmp zs" "x \<in> set zs" "set ys \<subseteq> set zs"
    and "sorted_wrt (precedes cmp) ys"
  shows "sorted_wrt (precedes cmp) (insert_sorted cmp x ys)"
  using assms(3,4)
proof (induction ys)
  case Nil
  then show ?case by simp
next
  case (Cons y ys)
  have y: "y \<in> set zs" and ys: "set ys \<subseteq> set zs"
    using Cons.prems(1) by simp_all
  have sorted_ys: "sorted_wrt (precedes cmp) ys"
    using Cons.prems(2) by simp
  have y_first: "\<forall>z\<in>set ys. cmp y z \<le> 0"
    using Cons.prems(2) by simp
  show ?case
  proof (cases "cmp x y \<le> 0")
    case True
    have "cmp x z \<le> 0" if "z \<in> set ys" for z
    proof -
      have "cmp y z \<le> 0" using y_first that by simp
      moreover have "z \<in> set zs" using ys that by blast
      ultimately show ?thesis
        using total_preorder_on_list_trans [OF assms(1) assms(2) y _ True] by blast
    qed
    then show ?thesis
      using True y_first sorted_ys by simp
  next
    case False
    then have yx: "cmp y x \<le> 0"
      using total_preorder_on_list_total [OF assms(1) assms(2) y] by blast
    have "sorted_wrt (precedes cmp) (insert_sorted cmp x ys)"
      using Cons.IH ys sorted_ys by simp
    then show ?thesis
      using False yx y_first by (simp add: set_insert_sorted)
  qed
qed

lemma sorted_array_sort_aux:
  assumes "total_preorder_on_list cmp zs"
  shows "set xs \<subseteq> set zs \<Longrightarrow> sorted_wrt (precedes cmp) (array_sort cmp xs)"
proof (induction xs)
  case Nil
  then show ?case by (simp add: array_sort_def)
next
  case (Cons x xs)
  have s: "set (array_sort cmp xs) \<subseteq> set zs"
    using Cons.prems by (simp add: set_array_sort)
  have "sorted_wrt (precedes cmp) (insert_sorted cmp x (array_sort cmp xs))"
    using assms _ s
  proof (rule sorted_insert_sorted)
    show "x \<in> set zs" using Cons.prems by simp
    show "sorted_wrt (precedes cmp) (array_sort cmp xs)" using Cons by simp
  qed
  then show ?case by (simp add: array_sort_Cons)
qed

lemma sorted_array_sort:
  "total_preorder_on_list cmp xs \<Longrightarrow> sorted_wrt (precedes cmp) (array_sort cmp xs)"
  using sorted_array_sort_aux [of cmp xs xs] by simp

text \<open>
  The sort is stable: an element is put in front of the first element that it precedes,
  so behind every element of the sorted rest that does not tie with it, and in front of
  those that do, which came after it in the input.
\<close>

lemma filter_ties_insert_sorted:
  assumes "total_preorder_on_list cmp zs" "a \<in> set zs" "x \<in> set zs"
  shows "set ys \<subseteq> set zs \<Longrightarrow>
     filter (ties cmp a) (insert_sorted cmp x ys) = filter (ties cmp a) (x # ys)"
proof (induction ys)
  case Nil
  then show ?case by simp
next
  case (Cons y ys)
  have y: "y \<in> set zs" and ys: "set ys \<subseteq> set zs"
    using Cons.prems by simp_all
  show ?case
  proof (cases "cmp x y \<le> 0")
    case True
    then show ?thesis by simp
  next
    case False
    have not_both: "\<not> (ties cmp a x \<and> ties cmp a y)"
    proof
      assume t: "ties cmp a x \<and> ties cmp a y"
      then have "cmp x a \<le> 0" "cmp a y \<le> 0" by (simp_all add: ties_def)
      then have "cmp x y \<le> 0"
        using total_preorder_on_list_trans [OF assms(1) assms(3) assms(2) y] by blast
      then show False using False by simp
    qed
    have "filter (ties cmp a) (insert_sorted cmp x (y # ys))
        = filter (ties cmp a) (y # insert_sorted cmp x ys)"
      using False by simp
    also have "\<dots> = filter (ties cmp a) [y] @ filter (ties cmp a) (x # ys)"
      using Cons.IH [OF ys] by simp
    also have "\<dots> = filter (ties cmp a) (x # y # ys)"
      using not_both by auto
    finally show ?thesis .
  qed
qed

lemma filter_ties_array_sort_aux:
  assumes "total_preorder_on_list cmp zs" "a \<in> set zs"
  shows "set xs \<subseteq> set zs \<Longrightarrow> filter (ties cmp a) (array_sort cmp xs) = filter (ties cmp a) xs"
proof (induction xs)
  case Nil
  then show ?case by (simp add: array_sort_def)
next
  case (Cons x xs)
  have x: "x \<in> set zs" and xs: "set xs \<subseteq> set zs"
    using Cons.prems by simp_all
  have s: "set (array_sort cmp xs) \<subseteq> set zs"
    using xs by (simp add: set_array_sort)
  have "filter (ties cmp a) (array_sort cmp (x # xs))
      = filter (ties cmp a) (x # array_sort cmp xs)"
    unfolding array_sort_Cons using assms x s by (rule filter_ties_insert_sorted)
  also have "\<dots> = filter (ties cmp a) (x # xs)"
    using Cons.IH [OF xs] by simp
  finally show ?case .
qed

lemma filter_ties_array_sort:
  "total_preorder_on_list cmp xs \<Longrightarrow> a \<in> set xs \<Longrightarrow>
   filter (ties cmp a) (array_sort cmp xs) = filter (ties cmp a) xs"
  using filter_ties_array_sort_aux [of cmp xs a xs] by simp

text \<open>
  Two sorted lists of the same elements that keep the same order of ties are equal.
\<close>

lemma sorted_wrt_unique:
  assumes "\<forall>a\<in>set xs. ties cmp a a"
    and "\<forall>a\<in>set xs. filter (ties cmp a) xs = filter (ties cmp a) ys"
  shows "sorted_wrt (precedes cmp) xs \<Longrightarrow> sorted_wrt (precedes cmp) ys \<Longrightarrow> mset xs = mset ys \<Longrightarrow> xs = ys"
  using assms
proof (induction xs arbitrary: ys)
  case Nil
  then show ?case by simp
next
  case (Cons x xs)
  from Cons.prems(3) obtain y ys' where ys: "ys = y # ys'"
    by (cases ys) auto
  have sets: "set (x # xs) = set (y # ys')"
    using mset_eq_setD [OF Cons.prems(3)] ys by simp
  have refl: "ties cmp x x"
    using Cons.prems(4) by simp
  have head: "filter (ties cmp x) (x # xs) = filter (ties cmp x) (y # ys')"
    using Cons.prems(5) ys by simp
  have xy: "x = y"
  proof (rule ccontr)
    assume ne: "x \<noteq> y"
    then have "x \<in> set ys'" "y \<in> set xs" using sets by auto
    then have "cmp y x \<le> 0" "cmp x y \<le> 0"
      using Cons.prems(1,2) ys by auto
    then have "ties cmp x y" by (simp add: ties_def)
    then show False using head refl ne by simp
  qed
  have "xs = ys'"
  proof (rule Cons.IH)
    show "sorted_wrt (precedes cmp) xs" using Cons.prems(1) by simp
    show "sorted_wrt (precedes cmp) ys'" using Cons.prems(2) ys by simp
    show "mset xs = mset ys'" using Cons.prems(3) ys xy by simp
    show "\<forall>a\<in>set xs. ties cmp a a" using Cons.prems(4) by simp
    show "\<forall>a\<in>set xs. filter (ties cmp a) xs = filter (ties cmp a) ys'"
    proof
      fix a assume a: "a \<in> set xs"
      have "filter (ties cmp a) (x # xs) = filter (ties cmp a) (x # ys')"
        using Cons.prems(5) a ys xy by simp
      then show "filter (ties cmp a) xs = filter (ties cmp a) ys'"
        by (cases "ties cmp a x") simp_all
    qed
  qed
  then show ?case using xy ys by simp
qed

lemma array_sort_same_tie_order:
  assumes "total_preorder_on_list cmp xs" "mset ys = mset xs" "same_tie_order cmp xs ys"
  shows "array_sort cmp ys = array_sort cmp xs"
proof -
  have sy: "set ys = set xs" using assms(2) by (rule mset_eq_setD)
  have py: "total_preorder_on_list cmp ys"
    using assms(1) unfolding total_preorder_on_list_def sy .
  have 1: "sorted_wrt (precedes cmp) (array_sort cmp xs)"
    using assms(1) by (rule sorted_array_sort)
  have 2: "sorted_wrt (precedes cmp) (array_sort cmp ys)"
    using py by (rule sorted_array_sort)
  have 3: "mset (array_sort cmp ys) = mset (array_sort cmp xs)"
    by (simp add: mset_array_sort assms(2))
  have 4: "\<forall>a\<in>set (array_sort cmp ys). ties cmp a a"
    using total_preorder_on_list_refl [OF py] by (simp add: set_array_sort)
  have 5: "\<forall>a\<in>set (array_sort cmp ys).
      filter (ties cmp a) (array_sort cmp ys) = filter (ties cmp a) (array_sort cmp xs)"
  proof
    fix a assume "a \<in> set (array_sort cmp ys)"
    then have ay: "a \<in> set ys" by (simp add: set_array_sort)
    then have ax: "a \<in> set xs" using sy by simp
    have "filter (ties cmp a) (array_sort cmp ys) = filter (ties cmp a) ys"
      using py ay by (rule filter_ties_array_sort)
    also have "\<dots> = filter (ties cmp a) xs"
      using assms(3) ax by (simp add: same_tie_order_def)
    also have "\<dots> = filter (ties cmp a) (array_sort cmp xs)"
      using filter_ties_array_sort [OF assms(1) ax] by simp
    finally show "filter (ties cmp a) (array_sort cmp ys) = filter (ties cmp a) (array_sort cmp xs)" .
  qed
  show ?thesis
    by (rule sorted_wrt_unique [OF 4 5 2 1 3])
qed

text \<open>
  Without ties between different elements, every permutation keeps the order of ties.
\<close>

lemma filter_eq_replicate_count: "filter ((=) a) xs = replicate (count (mset xs) a) a"
  by (induction xs) auto

lemma no_ties_same_tie_order:
  assumes "total_preorder_on_list cmp xs" "no_ties cmp xs" "mset ys = mset xs"
  shows "same_tie_order cmp xs ys"
  unfolding same_tie_order_def
proof
  fix a assume a: "a \<in> set xs"
  have sy: "set ys = set xs" using assms(3) by (rule mset_eq_setD)
  have e: "ties cmp a b \<longleftrightarrow> a = b" if "b \<in> set xs" for b
    using no_ties_eq [OF assms(2) a that] total_preorder_on_list_refl [OF assms(1) a] by blast
  have "filter (ties cmp a) ys = filter ((=) a) ys"
    by (rule filter_cong) (simp_all add: e sy)
  also have "\<dots> = replicate (count (mset ys) a) a"
    by (rule filter_eq_replicate_count)
  also have "\<dots> = replicate (count (mset xs) a) a"
    by (simp add: assms(3))
  also have "\<dots> = filter ((=) a) xs"
    by (rule filter_eq_replicate_count [symmetric])
  also have "\<dots> = filter (ties cmp a) xs"
    by (rule filter_cong) (simp_all add: e)
  finally show "filter (ties cmp a) ys = filter (ties cmp a) xs" .
qed

text \<open>
  Entries in the layout of \<^verbatim>\<open>diagnosticsToBaseline\<close> are determined by rule and range.
\<close>

lemma literal_entry_eq:
  "parsed e1 = None \<Longrightarrow> parsed e2 = None \<Longrightarrow> fingerprint e1 = fingerprint e2 \<Longrightarrow> e1 = e2"
  by (cases e1, cases e2) (simp add: fingerprint_def)

lemma literal_fingerprints_eq:
  assumes "literal_entries a" "literal_entries b" "fingerprints a = fingerprints b"
  shows "a = b"
proof -
  have la: "parsed e = None" if "(p, es) \<in> set (files a)" "e \<in> set es" for p es e
    using assms(1) that by (auto simp: literal_entries_def list_all_iff)
  have lb: "parsed e = None" if "(p, es) \<in> set (files b)" "e \<in> set es" for p es e
    using assms(2) that by (auto simp: literal_entries_def list_all_iff)
  have "files a = files b"
  proof (rule list.inj_map_strong)
    show "map (\<lambda>(p, es). (p, map fingerprint es)) (files a)
        = map (\<lambda>(p, es). (p, map fingerprint es)) (files b)"
      using assms(3) by (simp add: fingerprints_def)
  next
    fix x y
    assume x: "x \<in> set (files a)" and y: "y \<in> set (files b)"
      and e: "(case x of (p, es) \<Rightarrow> (p, map fingerprint es))
            = (case y of (p, es) \<Rightarrow> (p, map fingerprint es))"
    obtain p es where x': "x = (p, es)" by (cases x)
    obtain q fs where y': "y = (q, fs)" by (cases y)
    have pq: "p = q" and m: "map fingerprint es = map fingerprint fs"
      using e x' y' by simp_all
    have "es = fs"
    proof (rule list.inj_map_strong [OF _ m])
      fix e1 e2 assume "e1 \<in> set es" "e2 \<in> set fs" "fingerprint e1 = fingerprint e2"
      then show "e1 = e2"
        using la [of p es e1] lb [of q fs e2] x y x' y' by (simp add: literal_entry_eq)
    qed
    then show "x = y" using pq x' y' by simp
  qed
  then show ?thesis by simp
qed

lemma hint_copy_first:
  assumes "\<forall>(n, rs)\<in>set pre. r \<notin> set rs" "r \<in> set rules"
  shows "hint_copy E d r (pre @ (name, rules) # post) =
     Some (d\<lparr>category := convertLevelToCategory E name,
             baselineStatus := Some BaselinedWithHint, rule := Some r\<rparr>)"
  using assms by (induction pre) auto

lemma hint_copy_none:
  "\<forall>(n, rs)\<in>set tiers. r \<notin> set rs \<Longrightarrow> hint_copy E d r tiers = None"
  by (induction tiers) auto

lemma getBaselinedErrors_unparsable:
  "contents fs (baselineFilePath E rootDir) = Some text \<Longrightarrow> JSON_parse E text = None \<Longrightarrow>
   getBaselinedErrors E fs rootDir = Inl SyntaxError"
  by (simp add: getBaselinedErrors_def)


lemma length_array_sort: "length (array_sort cmp xs) = length xs"
  using mset_array_sort [of cmp xs] by (metis size_mset)

lemma new_side_Keep: "new_side (map Keep new) = map (Pair True) new"
  by (induction new) auto

lemma lcs_edits_all_keep: "list_all2 eq old new \<Longrightarrow> lcs_edits eq old new = map Keep new"
  by (induction rule: list_all2_induct) auto

lemma matched_flags_all:
  "list_all2 eq old new \<Longrightarrow> matched_flags old new eq = replicate (length new) True"
  by (simp add: matched_flags_def lcs_edits_all_keep new_side_Keep comp_def map_replicate_const)

lemma baselined_copy_no_tier:
  assumes "case rule d of None \<Rightarrow> True
           | Some r \<Rightarrow> r = [] \<or> (\<forall>(name, rules)\<in>set (extraOptionDiagnosticRules E). r \<notin> set rules)"
  shows "baselined_copy E d = d\<lparr>baselineStatus := Some Baselined\<rparr>"
  using assms by (auto simp: baselined_copy_def hint_copy_none split: option.splits)

lemma baselined_copy_first_tier:
  assumes "rule d = Some r" "r \<noteq> []"
    and "extraOptionDiagnosticRules E = pre @ (name, rules) # post"
    and "\<forall>(n, rs)\<in>set pre. r \<notin> set rs" "r \<in> set rules"
  shows "baselined_copy E d =
     d\<lparr>category := convertLevelToCategory E name, baselineStatus := Some BaselinedWithHint\<rparr>"
proof -
  have "d\<lparr>category := convertLevelToCategory E name,
          baselineStatus := Some BaselinedWithHint, rule := Some r\<rparr>
        = d\<lparr>category := convertLevelToCategory E name, baselineStatus := Some BaselinedWithHint\<rparr>"
    using assms(1) by (cases d) simp
  then show ?thesis
    using assms by (simp add: baselined_copy_def hint_copy_first)
qed
section \<open>Evaluation in the sample project\<close>

lemma sample_simps:
  "getRelativePath sample = sample_getRelativePath"
  "combinePaths sample = sample_combinePaths"
  "getDirectory sample = sample_getDirectory"
  "JSON_parse sample = sample_JSON_parse"
  "compareDiagnostics sample = sample_compareDiagnostics"
  "extraOptionDiagnosticRules sample = sample_extraOptionDiagnosticRules"
  "convertLevelToCategory sample = sample_convertLevelToCategory"
  by (simp_all add: sample_def)

lemma sample_baselineFilePath:
  "baselineFilePath sample ''/p'' = ''/p/.basedpyright/baseline.json''"
  by code_simp

lemma sample_getDirectory_baseline:
  "getDirectory sample ''/p/.basedpyright/baseline.json'' = ''/p/.basedpyright''"
  by code_simp

lemma sample_disk_previous: "getBaselinedErrors sample sample_disk ''/p'' = Inr sample_previous"
  by code_simp

lemma sample_run_new:
  "diagnosticsToBaseline sample ''/p'' sample_run =
     Inr \<lparr>files =
        [(''./b.py'', [entry (Some ''reportIndexIssue'') 1 5 (Some 1)]),
         (''./a.py'', [entry (Some ''reportAttributeAccessIssue'') 4 10 (Some 1),
                       entry (Some ''reportDeprecated'') 0 3 (Some 1)]),
         (''./c.py'', [])]\<rparr>"
  by code_simp

lemma write_eval:
  assumes "diagnosticsToBaseline E rootDir fwd = Inr new"
    and "getBaselinedErrors E fs rootDir = Inr previous"
    and "written (merge_previous E fs rootDir flag (files previous) (files new)) = files r"
    and "baselineFilePath E rootDir = P"
    and "getDirectory E P = D"
  shows "writeDiagnosticsToBaselineFile E fs rootDir fwd flag =
     Inr (writeFileSync (mkdirSync fs D) P (JSON_stringify r), r)"
proof -
  have e: "\<lparr>files = files r\<rparr> = r" by (cases r) simp
  have "writeDiagnosticsToBaselineFile E fs rootDir fwd flag =
     Inr (writeFileSync (mkdirSync fs D) P (JSON_stringify \<lparr>files = files r\<rparr>),
          \<lparr>files = files r\<rparr>)"
    using write_unfold [OF assms(1,2), of flag] assms(3-5) by simp
  then show ?thesis unfolding e .
qed

lemma sample_write:
  "writeDiagnosticsToBaselineFile sample sample_disk ''/p'' sample_run False =
     Inr (sample_disk_after, sample_written)"
proof -
  have "written (merge_previous sample sample_disk ''/p'' False (files sample_previous)
          [(''./b.py'', [entry (Some ''reportIndexIssue'') 1 5 (Some 1)]),
           (''./a.py'', [entry (Some ''reportAttributeAccessIssue'') 4 10 (Some 1),
                         entry (Some ''reportDeprecated'') 0 3 (Some 1)]),
           (''./c.py'', [])]) = files sample_written"
    by code_simp
  then show ?thesis
    using write_eval [OF sample_run_new sample_disk_previous _
        sample_baselineFilePath sample_getDirectory_baseline, of False sample_written]
    by (simp add: sample_disk_after_def)
qed


lemma sample_run_again_new:
  "diagnosticsToBaseline sample ''/p'' sample_run_again =
     Inr \<lparr>files =
        [(''./z.py'', [entry (Some ''reportCallIssue'') 8 12 (Some 1)]),
         (''./c.py'', []),
         (''./a.py'', [entry (Some ''reportAttributeAccessIssue'') 4 10 (Some 1),
                       entry (Some ''reportDeprecated'') 0 3 (Some 1)]),
         (''./b.py'', [entry (Some ''reportIndexIssue'') 1 5 (Some 1)])]\<rparr>"
  by code_simp

lemma sample_write_again:
  "writeDiagnosticsToBaselineFile sample (disk []) ''/p'' sample_run_again True =
     Inr (writeFileSync (mkdirSync (disk []) ''/p/.basedpyright'')
            ''/p/.basedpyright/baseline.json'' (JSON_stringify sample_written),
          sample_written)"
proof -
  have p: "getBaselinedErrors sample (disk []) ''/p'' = Inr \<lparr>files = []\<rparr>"
    by code_simp
  have "written (merge_previous sample (disk []) ''/p'' True (files \<lparr>files = []\<rparr>)
          [(''./z.py'', [entry (Some ''reportCallIssue'') 8 12 (Some 1)]),
           (''./c.py'', []),
           (''./a.py'', [entry (Some ''reportAttributeAccessIssue'') 4 10 (Some 1),
                         entry (Some ''reportDeprecated'') 0 3 (Some 1)]),
           (''./b.py'', [entry (Some ''reportIndexIssue'') 1 5 (Some 1)])]) = files sample_written"
    by code_simp
  then show ?thesis
    using write_eval [OF sample_run_again_new p _
        sample_baselineFilePath sample_getDirectory_baseline, of True sample_written]
    by simp
qed

lemma plain_disk_previous: "getBaselinedErrors sample plain_disk ''/p'' = Inr plain_previous"
  by code_simp

lemma plain_write:
  "writeDiagnosticsToBaselineFile sample plain_disk ''/p'' sample_run True =
     Inr (plain_disk_after, sample_written)"
proof -
  have "written (merge_previous sample plain_disk ''/p'' True (files plain_previous)
          [(''./b.py'', [entry (Some ''reportIndexIssue'') 1 5 (Some 1)]),
           (''./a.py'', [entry (Some ''reportAttributeAccessIssue'') 4 10 (Some 1),
                         entry (Some ''reportDeprecated'') 0 3 (Some 1)]),
           (''./c.py'', [])]) = files sample_written"
    by code_simp
  then show ?thesis
    using write_eval [OF sample_run_new plain_disk_previous _
        sample_baselineFilePath sample_getDirectory_baseline, of True sample_written]
    by (simp add: plain_disk_after_def)
qed

lemma foreign_disk_previous: "getBaselinedErrors sample foreign_disk ''/p'' = Inr foreign_previous"
  by code_simp

lemma foreign_write:
  "writeDiagnosticsToBaselineFile sample foreign_disk ''/p'' sample_run True =
     Inr (foreign_disk_after, foreign_written)"
proof -
  have "written (merge_previous sample foreign_disk ''/p'' True (files foreign_previous)
          [(''./b.py'', [entry (Some ''reportIndexIssue'') 1 5 (Some 1)]),
           (''./a.py'', [entry (Some ''reportAttributeAccessIssue'') 4 10 (Some 1),
                         entry (Some ''reportDeprecated'') 0 3 (Some 1)]),
           (''./c.py'', [])]) = files foreign_written"
    by code_simp
  then show ?thesis
    using write_eval [OF sample_run_new foreign_disk_previous _
        sample_baselineFilePath sample_getDirectory_baseline, of True foreign_written]
    by (simp add: foreign_disk_after_def)
qed

section \<open>The claims\<close>

subsection \<open>Loading the baseline\<close>

text \<open>
  C1, as the claim states it, fails for a baseline file that is there and does not parse:
  the \<^verbatim>\<open>try\<close> block of \<^verbatim>\<open>getBaselinedErrors\<close> holds the read only, and the
  SyntaxError of \<^verbatim>\<open>JSON.parse\<close>, which is called after it, reaches the caller. The
  file here was cut off after its first key.
\<close>

theorem getBaselinedErrors_corrupt_file:
  "getBaselinedErrors sample
     (disk [(''/p/.basedpyright/baseline.json'', ''{ \"files\": '')]) ''/p''
   = Inl SyntaxError"
  by code_simp

text \<open>
  C1, amended. For every root directory whose baseline file cannot be read, as when it is
  missing, \<^verbatim>\<open>getBaselinedErrors\<close> returns the empty baseline and raises nothing. A
  file that is read is given to \<^verbatim>\<open>JSON.parse\<close>, and what it returns is the baseline.
\<close>

theorem getBaselinedErrors_missing_file:
  "(contents fs (baselineFilePath E rootDir) = None \<longrightarrow>
      getBaselinedErrors E fs rootDir = Inr \<lparr>files = []\<rparr>)
   \<and> (contents fs (baselineFilePath E rootDir) = Some text \<and> JSON_parse E text = Some b \<longrightarrow>
      getBaselinedErrors E fs rootDir = Inr b)"
  by (simp add: getBaselinedErrors_def)

text \<open>A project without a baseline file, and the sample project.\<close>

theorem getBaselinedErrors_missing_file_witness:
  "contents (disk [(''/p/a.py'', ''pass'')]) (baselineFilePath sample ''/p'') = None
   \<and> getBaselinedErrors sample (disk [(''/p/a.py'', ''pass'')]) ''/p'' = Inr \<lparr>files = []\<rparr>
   \<and> contents sample_disk (baselineFilePath sample ''/p'') = Some (JSON_stringify sample_previous)
   \<and> JSON_parse sample (JSON_stringify sample_previous) = Some sample_previous
   \<and> getBaselinedErrors sample sample_disk ''/p'' = Inr sample_previous"
proof -
  have 1: "contents (disk [(''/p/a.py'', ''pass'')]) (baselineFilePath sample ''/p'') = None"
    by (simp add: sample_baselineFilePath disk_def)
  have 2: "contents sample_disk (baselineFilePath sample ''/p'')
             = Some (JSON_stringify sample_previous)"
    by (simp add: sample_baselineFilePath sample_disk_def disk_def)
  have 3: "JSON_parse sample (JSON_stringify sample_previous) = Some sample_previous"
    by code_simp
  show ?thesis
    using 1 2 3
      getBaselinedErrors_missing_file
        [of "disk [(''/p/a.py'', ''pass'')]" sample "''/p''" "JSON_stringify sample_previous"
            sample_previous]
      getBaselinedErrors_missing_file
        [of sample_disk sample "''/p''" "JSON_stringify sample_previous" sample_previous]
    by simp
qed

text \<open>
  C10, as the claim states it, fails for a file under the root directory when the baseline
  file is there and does not parse: with a relative path \<^verbatim>\<open>getBaselinedErrorsForFile\<close>
  calls \<^verbatim>\<open>getBaselinedErrors\<close>, and the SyntaxError of \<^verbatim>\<open>JSON.parse\<close> reaches the
  caller. The baseline file here ends inside the list of \<^verbatim>\<open>a.py\<close>; it has no entry
  for \<^verbatim>\<open>b.py\<close>.
\<close>

theorem getBaselinedErrorsForFile_corrupt_file:
  "getRelativePath sample ''/p'' ''/p/b.py'' = Some ''./b.py''
   \<and> getBaselinedErrorsForFile sample
         (disk [(''/p/.basedpyright/baseline.json'', ''{ \"files\": { \"./a.py\": ['')])
         ''/p'' ''/p/b.py''
       = Inl SyntaxError"
  by code_simp

text \<open>
  C10, amended. For a file outside the root directory, for which no relative path exists,
  \<^verbatim>\<open>getBaselinedErrorsForFile\<close> returns the empty list, whatever the baseline file
  holds; for a file under the root it returns the empty list when \<^verbatim>\<open>getBaselinedErrors\<close>
  loads a baseline, that of the file or the empty one of a missing file, and the baseline
  has no entry for the relative path.
\<close>

theorem getBaselinedErrorsForFile_empty:
  assumes "getRelativePath E rootDir file = None
           \<or> (\<exists>p b. getRelativePath E rootDir file = Some p
                  \<and> getBaselinedErrors E fs rootDir = Inr b \<and> map_of (files b) p = None)"
  shows "getBaselinedErrorsForFile E fs rootDir file = Inr []"
  using assms by (auto simp: getBaselinedErrorsForFile_def)

text \<open>
  In the sample project: a file of another project, also beside the baseline file that
  does not parse; a file that the baseline does not list; and a project without a baseline
  file.
\<close>

theorem getBaselinedErrorsForFile_empty_witness:
  "getRelativePath sample ''/p'' ''/q/a.py'' = None
   \<and> getBaselinedErrorsForFile sample sample_disk ''/p'' ''/q/a.py'' = Inr []
   \<and> getBaselinedErrorsForFile sample
         (disk [(''/p/.basedpyright/baseline.json'', ''{ \"files\": { \"./a.py\": ['')])
         ''/p'' ''/q/a.py'' = Inr []
   \<and> getRelativePath sample ''/p'' ''/p/b.py'' = Some ''./b.py''
   \<and> getBaselinedErrors sample sample_disk ''/p'' = Inr sample_previous
   \<and> map_of (files sample_previous) ''./b.py'' = None
   \<and> getBaselinedErrorsForFile sample sample_disk ''/p'' ''/p/b.py'' = Inr []
   \<and> getBaselinedErrors sample (disk []) ''/p'' = Inr \<lparr>files = []\<rparr>
   \<and> getBaselinedErrorsForFile sample (disk []) ''/p'' ''/p/b.py'' = Inr []"
proof -
  have 1: "getRelativePath sample ''/p'' ''/q/a.py'' = None" by code_simp
  have 2: "getRelativePath sample ''/p'' ''/p/b.py'' = Some ''./b.py''" by code_simp
  have 3: "map_of (files sample_previous) ''./b.py'' = None" by code_simp
  have 4: "getBaselinedErrors sample (disk []) ''/p'' = Inr \<lparr>files = []\<rparr>" by code_simp
  have 5: "map_of (files \<lparr>files = []\<rparr>) ''./b.py'' = None" by simp
  show ?thesis
    using 1 2 3 4 sample_disk_previous
      getBaselinedErrorsForFile_empty [of sample "''/p''" "''/q/a.py''" sample_disk]
      getBaselinedErrorsForFile_empty [of sample "''/p''" "''/q/a.py''"
        "disk [(''/p/.basedpyright/baseline.json'', ''{ \"files\": { \"./a.py\": ['')]"]
      getBaselinedErrorsForFile_empty [of sample "''/p''" "''/p/b.py''" sample_disk]
      getBaselinedErrorsForFile_empty [of sample "''/p''" "''/p/b.py''" "disk []"]
    by (metis 5)
qed

subsection \<open>The match predicate\<close>

text \<open>
  C4. The comparator of the diff holds for a baseline entry and a diagnostic exactly when
  the rule identifiers are equal, the start columns are equal, the end columns are equal,
  and the line count of the entry is absent or equals the line count of the range of the
  diagnostic. The line numbers themselves do not enter: moving a diagnostic by \<open>k\<close> lines
  changes no match, and a diagnostic moved by \<open>k\<close> lines still matches the entry that
  \<^verbatim>\<open>diagnosticsToBaseline\<close> wrote for it.
\<close>

theorem comparator_fingerprint:
  "(comparator b d \<longleftrightarrow>
      code b = rule d
      \<and> startColumn (brange b) = character (start (range' d))
      \<and> endColumn (brange b) = character (end' (range' d))
      \<and> (lineCount' (brange b) = None
         \<or> lineCount' (brange b)
             = Some (line (end' (range' d)) - line (start (range' d)) + 1)))
   \<and> comparator b (d\<lparr>range' := \<lparr>start = (start (range' d))\<lparr>line := line (start (range' d)) + k\<rparr>,
                                  end' = (end' (range' d))\<lparr>line := line (end' (range' d)) + k\<rparr>\<rparr>\<rparr>)
       = comparator b d
   \<and> comparator (to_baselined d)
        (d\<lparr>range' := \<lparr>start = (start (range' d))\<lparr>line := line (start (range' d)) + k\<rparr>,
                       end' = (end' (range' d))\<lparr>line := line (end' (range' d)) + k\<rparr>\<rparr>\<rparr>)"
  by (simp add: comparator_def lineCount_def to_baselined_def)

text \<open>
  The diagnostic at columns 4 to 10 of line 10, five lines further down: it matches the
  entry written for it, and the entry of the old format.
\<close>

theorem comparator_fingerprint_witness:
  "comparator (to_baselined (diag Error ''attribute'' 10 4 10 10 (Some ''reportAttributeAccessIssue'')))
     (diag Error ''attribute'' 15 4 15 10 (Some ''reportAttributeAccessIssue''))
   \<and> comparator (entry (Some ''reportAttributeAccessIssue'') 4 10 None)
       (diag Error ''attribute'' 15 4 15 10 (Some ''reportAttributeAccessIssue''))
   \<and> \<not> comparator (entry (Some ''reportAttributeAccessIssue'') 4 10 (Some 2))
       (diag Error ''attribute'' 15 4 15 10 (Some ''reportAttributeAccessIssue''))"
  using comparator_fingerprint
    [of "to_baselined (diag Error ''attribute'' 10 4 10 10 (Some ''reportAttributeAccessIssue''))"
        "diag Error ''attribute'' 10 4 10 10 (Some ''reportAttributeAccessIssue'')" 5]
    comparator_fingerprint
    [of "entry (Some ''reportAttributeAccessIssue'') 4 10 None"
        "diag Error ''attribute'' 15 4 15 10 (Some ''reportAttributeAccessIssue'')" 0]
    comparator_fingerprint
    [of "entry (Some ''reportAttributeAccessIssue'') 4 10 (Some 2)"
        "diag Error ''attribute'' 15 4 15 10 (Some ''reportAttributeAccessIssue'')" 0]
  by (simp add: diag_def entry_def comparator_def to_baselined_def lineCount_def)

subsection \<open>Writing the baseline\<close>

text \<open>
  C7, as the claim states it, fails: an entry that is carried over from the previous
  baseline is written as the object that \<^verbatim>\<open>JSON.parse\<close> built, with its properties in
  the order of the previous file. The run of the sample project on the open files, in the
  two projects whose baseline files list the entry of \<^verbatim>\<open>z.py\<close> in two layouts,
  returns two baselines with the same paths and, entry by entry, the same rule and range;
  the texts written differ.
\<close>

theorem carried_entry_keeps_layout:
  "writeDiagnosticsToBaselineFile sample plain_disk ''/p'' sample_run True
     = Inr (plain_disk_after, sample_written)
   \<and> writeDiagnosticsToBaselineFile sample foreign_disk ''/p'' sample_run True
     = Inr (foreign_disk_after, foreign_written)
   \<and> getBaselinedErrors sample plain_disk ''/p'' = Inr plain_previous
   \<and> getBaselinedErrors sample foreign_disk ''/p'' = Inr foreign_previous
   \<and> fingerprints foreign_previous = fingerprints plain_previous
   \<and> fingerprints foreign_written = fingerprints sample_written
   \<and> contents plain_disk_after ''/p/.basedpyright/baseline.json''
       = Some (JSON_stringify sample_written)
   \<and> contents foreign_disk_after ''/p/.basedpyright/baseline.json''
       = Some (JSON_stringify foreign_written)
   \<and> JSON_stringify foreign_written \<noteq> JSON_stringify sample_written"
proof -
  have 0: "fingerprints foreign_previous = fingerprints plain_previous"
    by code_simp
  have 1: "fingerprints foreign_written = fingerprints sample_written"
    by code_simp
  have 2: "JSON_stringify foreign_written \<noteq> JSON_stringify sample_written"
    by code_simp
  have 3: "contents foreign_disk_after ''/p/.basedpyright/baseline.json''
      = Some (JSON_stringify foreign_written)"
    by (simp add: foreign_disk_after_def writeFileSync_def)
  have 4: "contents plain_disk_after ''/p/.basedpyright/baseline.json''
      = Some (JSON_stringify sample_written)"
    by (simp add: plain_disk_after_def writeFileSync_def)
  show ?thesis
    using plain_write foreign_write plain_disk_previous foreign_disk_previous 0 1 2 3 4
    by simp
qed

text \<open>
  C7, amended. Whatever \<^verbatim>\<open>writeDiagnosticsToBaselineFile\<close> returns and writes has its
  paths in strictly ascending order and no path with an empty list of entries, and the
  text of the baseline file is the JSON text of the returned object. Two writes, on any
  two projects, write the same text when their baselines are equal as maps from paths to
  entry objects, the properties of every entry in the same order; and when all their
  entries are in the layout of \<^verbatim>\<open>diagnosticsToBaseline\<close> and the baselines have the same
  paths with, entry by entry, the same rule and range.
\<close>

theorem written_baseline_sorted_nonempty:
  assumes "writeDiagnosticsToBaselineFile E fs rootDir fwd flag = Inr (fs', result)"
    and "writeDiagnosticsToBaselineFile E2 fs2 rootDir2 fwd2 flag2 = Inr (fs2', result2)"
  shows "sorted (map fst (files result)) \<and> distinct (map fst (files result))
    \<and> [] \<notin> snd ` set (files result)
    \<and> contents fs' (baselineFilePath E rootDir) = Some (JSON_stringify result)
    \<and> (map_of (files result) = map_of (files result2) \<longrightarrow>
         contents fs' (baselineFilePath E rootDir) = contents fs2' (baselineFilePath E2 rootDir2))
    \<and> (literal_entries result \<and> literal_entries result2
         \<and> fingerprints result = fingerprints result2 \<longrightarrow>
         contents fs' (baselineFilePath E rootDir) = contents fs2' (baselineFilePath E2 rootDir2))"
proof -
  from write_cases [OF assms(1)] obtain new previous where
    d: "diagnosticsToBaseline E rootDir fwd = Inr new"
    and p: "getBaselinedErrors E fs rootDir = Inr previous"
    and r: "result = \<lparr>files = written (merge_previous E fs rootDir flag (files previous) (files new))\<rparr>"
    by blast
  from write_cases [OF assms(2)] obtain new2 previous2 where
    d2: "diagnosticsToBaseline E2 rootDir2 fwd2 = Inr new2"
    and p2: "getBaselinedErrors E2 fs2 rootDir2 = Inr previous2"
    and r2: "result2 = \<lparr>files = written (merge_previous E2 fs2 rootDir2 flag2 (files previous2) (files new2))\<rparr>"
    by blast
  have k: "sorted (map fst (files result)) \<and> distinct (map fst (files result))"
    unfolding r using diagnosticsToBaseline_map(2) [OF d]
    by (simp add: written_keys merge_previous_distinct)
  have k2: "sorted (map fst (files result2)) \<and> distinct (map fst (files result2))"
    unfolding r2 using diagnosticsToBaseline_map(2) [OF d2]
    by (simp add: written_keys merge_previous_distinct)
  have ne: "[] \<notin> snd ` set (files result)"
    unfolding r by (auto dest: written_nonempty)
  have c: "contents fs' (baselineFilePath E rootDir) = Some (JSON_stringify result)"
    by (simp add: write_contents [OF assms(1)])
  have c2: "contents fs2' (baselineFilePath E2 rootDir2) = Some (JSON_stringify result2)"
    by (simp add: write_contents [OF assms(2)])
  have same: "result = result2" if "map_of (files result) = map_of (files result2)"
  proof -
    have "files result = files result2"
      using k k2 that by (intro sorted_alist_unique) simp_all
    then show ?thesis by simp
  qed
  have literal: "result = result2"
    if "literal_entries result \<and> literal_entries result2
        \<and> fingerprints result = fingerprints result2"
    using that literal_fingerprints_eq [of result result2] by blast
  have t1: "contents fs' (baselineFilePath E rootDir) = contents fs2' (baselineFilePath E2 rootDir2)"
    if "map_of (files result) = map_of (files result2)"
    using same [OF that] c c2 by simp
  have t2: "contents fs' (baselineFilePath E rootDir) = contents fs2' (baselineFilePath E2 rootDir2)"
    if "literal_entries result \<and> literal_entries result2
        \<and> fingerprints result = fingerprints result2"
    using literal [OF that] c c2 by simp
  show ?thesis
    using k ne c t1 t2 by blast
qed

text \<open>
  The run of the sample project, and the run on its fresh copy that meets the same issues
  in another order: both write the three paths in ascending order, without \<^verbatim>\<open>c.py\<close>,
  with every entry in the layout of \<^verbatim>\<open>diagnosticsToBaseline\<close>, and the same text.
\<close>

theorem written_baseline_sorted_nonempty_witness:
  "writeDiagnosticsToBaselineFile sample sample_disk ''/p'' sample_run False
     = Inr (sample_disk_after, sample_written)
   \<and> writeDiagnosticsToBaselineFile sample (disk []) ''/p'' sample_run_again True
     = Inr (writeFileSync (mkdirSync (disk []) ''/p/.basedpyright'')
              ''/p/.basedpyright/baseline.json'' (JSON_stringify sample_written),
            sample_written)
   \<and> map fst (files sample_written) = [''./a.py'', ''./b.py'', ''./z.py'']
   \<and> sorted (map fst (files sample_written)) \<and> distinct (map fst (files sample_written))
   \<and> [] \<notin> snd ` set (files sample_written)
   \<and> literal_entries sample_written
   \<and> contents sample_disk_after ''/p/.basedpyright/baseline.json''
       = Some (JSON_stringify sample_written)
   \<and> contents sample_disk_after ''/p/.basedpyright/baseline.json''
       = contents (writeFileSync (mkdirSync (disk []) ''/p/.basedpyright'')
              ''/p/.basedpyright/baseline.json'' (JSON_stringify sample_written))
           ''/p/.basedpyright/baseline.json''"
proof -
  have 1: "map fst (files sample_written) = [''./a.py'', ''./b.py'', ''./z.py'']"
    by (simp add: sample_written_def)
  have 2: "literal_entries sample_written"
    by code_simp
  note T = written_baseline_sorted_nonempty [OF sample_write sample_write_again]
  have 3: "sorted (map fst (files sample_written)) \<and> distinct (map fst (files sample_written))
      \<and> [] \<notin> snd ` set (files sample_written)
      \<and> contents sample_disk_after (baselineFilePath sample ''/p'')
          = Some (JSON_stringify sample_written)"
    using T by blast
  have 4: "contents sample_disk_after (baselineFilePath sample ''/p'')
      = contents (writeFileSync (mkdirSync (disk []) ''/p/.basedpyright'')
              ''/p/.basedpyright/baseline.json'' (JSON_stringify sample_written))
           (baselineFilePath sample ''/p'')"
    using T 2 by blast
  show ?thesis
    using 1 2 3 4 sample_write sample_write_again
    by (simp add: sample_baselineFilePath)
qed



text \<open>
  C6. A second update of the baseline with the same diagnostics, on the file system that
  the first update left, returns the same baseline and leaves the file system as it is:
  the text of the baseline file is written again unchanged. The reader of the environment
  has to read the written text back as the baseline that was written.
\<close>

theorem update_baseline_twice:
  assumes "writeDiagnosticsToBaselineFile E fs rootDir fwd flag = Inr (fs1, r1)"
    and "JSON_parse E (JSON_stringify r1) = Some r1"
  shows "writeDiagnosticsToBaselineFile E fs1 rootDir fwd flag = Inr (fs1, r1)
    \<and> contents fs1 (baselineFilePath E rootDir) = Some (JSON_stringify r1)"
proof -
  let ?P = "baselineFilePath E rootDir"
  from write_cases [OF assms(1)] obtain new previous where
    d: "diagnosticsToBaseline E rootDir fwd = Inr new"
    and p: "getBaselinedErrors E fs rootDir = Inr previous"
    and r: "r1 = \<lparr>files = written (merge_previous E fs rootDir flag (files previous) (files new))\<rparr>"
    and f: "fs1 = writeFileSync (mkdirSync fs (getDirectory E ?P)) ?P (JSON_stringify r1)"
    by blast
  let ?nb1 = "merge_previous E fs rootDir flag (files previous) (files new)"
  let ?nb2 = "merge_previous E fs1 rootDir flag (files r1) (files new)"
  have c: "contents fs1 = (contents fs)(?P \<mapsto> JSON_stringify r1)"
    by (rule write_contents [OF assms(1)])
  have g: "getBaselinedErrors E fs1 rootDir = Inr r1"
    by (simp add: getBaselinedErrors_def c assms(2))
  have dn: "distinct (map fst (files new))"
    using d by (rule diagnosticsToBaseline_map(2))
  have ex: "fileExists fs1 u" if "fileExists fs u" for u
    using that by (simp add: fileExists_def c)
  have h: "map_of (files r1) = nonempty (map_of ?nb1)"
    by (simp add: r written_map)
  have e1: "map_of ?nb1 q =
        (case map_of (files new) q of Some es \<Rightarrow> Some es
         | None \<Rightarrow> if flag \<or> fileExists fs (combinePaths E rootDir q)
                    then map_of (files previous) q else None)" for q
    by (rule merge_previous_map)
  have e2: "map_of ?nb2 q =
        (case map_of (files new) q of Some es \<Rightarrow> Some es
         | None \<Rightarrow> if flag \<or> fileExists fs1 (combinePaths E rootDir q)
                    then nonempty (map_of ?nb1) q else None)" for q
    unfolding merge_previous_map h ..
  have e3: "flag \<or> fileExists fs1 (combinePaths E rootDir q)"
    if "flag \<or> fileExists fs (combinePaths E rootDir q)" for q
    using that ex by blast
  have "nonempty (map_of ?nb2) = nonempty (map_of ?nb1)"
    by (rule nonempty_merge_twice
          [where ?keep1.0 = "\<lambda>q. flag \<or> fileExists fs (combinePaths E rootDir q)"
             and ?keep2.0 = "\<lambda>q. flag \<or> fileExists fs1 (combinePaths E rootDir q)"
             and new = "map_of (files new)" and prev = "map_of (files previous)",
           OF e3 e1 e2])
  then have "map_of (written ?nb2) = map_of (written ?nb1)"
    by (simp add: written_map)
  moreover have "sorted (map fst (written ?nb1)) \<and> distinct (map fst (written ?nb1))"
    using dn by (intro written_keys merge_previous_distinct)
  moreover have "sorted (map fst (written ?nb2)) \<and> distinct (map fst (written ?nb2))"
    using dn by (intro written_keys merge_previous_distinct)
  ultimately have w: "written ?nb2 = written ?nb1"
    by (intro sorted_alist_unique) simp_all
  have same: "writeFileSync (mkdirSync fs1 (getDirectory E ?P)) ?P (JSON_stringify r1) = fs1"
    by (simp add: f writeFileSync_def mkdirSync_def)
  have "writeDiagnosticsToBaselineFile E fs1 rootDir fwd flag = Inr (fs1, r1)"
    using write_unfold [OF d g, of flag] by (simp add: w r [symmetric] same)
  then show ?thesis by (simp add: c)
qed

text \<open>
  The run of the sample project, twice: the sample reader reads the written text back, and
  the second run returns the file system of the first.
\<close>

theorem update_baseline_twice_witness:
  "writeDiagnosticsToBaselineFile sample sample_disk ''/p'' sample_run False
     = Inr (sample_disk_after, sample_written)
   \<and> JSON_parse sample (JSON_stringify sample_written) = Some sample_written
   \<and> writeDiagnosticsToBaselineFile sample sample_disk_after ''/p'' sample_run False
     = Inr (sample_disk_after, sample_written)
   \<and> contents sample_disk_after ''/p/.basedpyright/baseline.json''
     = Some (JSON_stringify sample_written)"
proof -
  have p: "JSON_parse sample (JSON_stringify sample_written) = Some sample_written"
    by code_simp
  show ?thesis
    using update_baseline_twice [OF sample_write p] sample_write p
    by (simp add: sample_baselineFilePath)
qed

text \<open>
  C9. Under every path of the baseline that \<^verbatim>\<open>diagnosticsToBaseline\<close> produces stand
  the entries of exactly those diagnostics of the files with that path whose category is
  none of \<^verbatim>\<open>Deprecated\<close>, \<^verbatim>\<open>UnreachableCode\<close> and \<^verbatim>\<open>UnusedCode\<close>, or whose
  baseline status is \<^verbatim>\<open>baselined with hint\<close>, one entry for each, in their order. What
  \<^verbatim>\<open>writeDiagnosticsToBaselineFile\<close> persists under the path of a file of the run are
  these entries.
\<close>

theorem baseline_holds_no_plain_hints:
  assumes "diagnosticsToBaseline E rootDir fwd = Inr b"
  shows "((p, es) \<in> set (files b) \<longrightarrow>
            es = concat (map (\<lambda>f. map to_baselined
                      (filter (\<lambda>d. category d \<notin> {Deprecated, UnreachableCode, UnusedCode}
                                   \<or> baselineStatus d = Some BaselinedWithHint) (diagnostics f)))
                   (filter (\<lambda>f. getRelativePath E rootDir (fileUri f) = Some p) fwd)))
    \<and> (writeDiagnosticsToBaselineFile E fs rootDir fwd flag = Inr (fs', result)
        \<and> (\<exists>f\<in>set fwd. getRelativePath E rootDir (fileUri f) = Some p)
        \<and> (p, es') \<in> set (files result) \<longrightarrow> (p, es') \<in> set (files b))"
proof -
  have k: "baselined_for E rootDir p fwd =
     concat (map (\<lambda>f. map to_baselined
                      (filter (\<lambda>d. category d \<notin> {Deprecated, UnreachableCode, UnusedCode}
                                   \<or> baselineStatus d = Some BaselinedWithHint) (diagnostics f)))
                   (filter (\<lambda>f. getRelativePath E rootDir (fileUri f) = Some p) fwd))"
    by (simp add: baselined_for_def is_error_diagnostic_def [abs_def])
  have db: "distinct (map fst (files b))"
    using assms by (rule diagnosticsToBaseline_map(2))
  have 1: "es = baselined_for E rootDir p fwd" if "(p, es) \<in> set (files b)"
    using that diagnosticsToBaseline_map(1) [OF assms, of p] db by (auto split: if_splits)
  have 2: "(p, es') \<in> set (files b)"
    if w: "writeDiagnosticsToBaselineFile E fs rootDir fwd flag = Inr (fs', result)"
      and s: "\<exists>f\<in>set fwd. getRelativePath E rootDir (fileUri f) = Some p"
      and m: "(p, es') \<in> set (files result)"
  proof -
    from write_cases [OF w] assms obtain previous where
      pr: "getBaselinedErrors E fs rootDir = Inr previous"
      and r: "result = \<lparr>files = written (merge_previous E fs rootDir flag (files previous) (files b))\<rparr>"
      by auto
    let ?nb = "merge_previous E fs rootDir flag (files previous) (files b)"
    have "distinct (map fst (written ?nb))"
      using db by (simp add: written_keys merge_previous_distinct)
    then have "map_of (written ?nb) p = Some es'"
      using m r by simp
    then have "nonempty (map_of ?nb) p = Some es'"
      by (simp add: written_map)
    then have "map_of ?nb p = Some es'"
      by (auto simp: nonempty_def split: option.splits if_splits)
    moreover have "map_of (files b) p \<noteq> None"
      using diagnosticsToBaseline_map(1) [OF assms, of p] s by simp
    ultimately have "map_of (files b) p = Some es'"
      by (auto simp: merge_previous_map split: option.splits)
    then show ?thesis by (rule map_of_SomeD)
  qed
  show ?thesis
    using 1 2 k by auto
qed

text \<open>
  In the sample run \<^verbatim>\<open>a.py\<close> has a baselined error, a deprecation that was demoted to
  a hint with the status \<^verbatim>\<open>baselined with hint\<close>, and a plain deprecation hint: the
  first two are in the baseline, the third is not.
\<close>

theorem baseline_holds_no_plain_hints_witness:
  "diagnosticsToBaseline sample ''/p'' sample_run =
     Inr \<lparr>files =
        [(''./b.py'', [entry (Some ''reportIndexIssue'') 1 5 (Some 1)]),
         (''./a.py'', [entry (Some ''reportAttributeAccessIssue'') 4 10 (Some 1),
                       entry (Some ''reportDeprecated'') 0 3 (Some 1)]),
         (''./c.py'', [])]\<rparr>
   \<and> [entry (Some ''reportAttributeAccessIssue'') 4 10 (Some 1),
       entry (Some ''reportDeprecated'') 0 3 (Some 1)]
     = concat (map (\<lambda>f. map to_baselined
                      (filter (\<lambda>d. category d \<notin> {Deprecated, UnreachableCode, UnusedCode}
                                   \<or> baselineStatus d = Some BaselinedWithHint) (diagnostics f)))
                   (filter (\<lambda>f. getRelativePath sample ''/p'' (fileUri f) = Some ''./a.py'')
                      sample_run))
   \<and> writeDiagnosticsToBaselineFile sample sample_disk ''/p'' sample_run False
       = Inr (sample_disk_after, sample_written)
   \<and> (\<exists>f\<in>set sample_run. getRelativePath sample ''/p'' (fileUri f) = Some ''./a.py'')
   \<and> (''./a.py'', [entry (Some ''reportAttributeAccessIssue'') 4 10 (Some 1),
                    entry (Some ''reportDeprecated'') 0 3 (Some 1)]) \<in> set (files sample_written)"
proof -
  have 1: "\<exists>f\<in>set sample_run. getRelativePath sample ''/p'' (fileUri f) = Some ''./a.py''"
    by code_simp
  have 2: "(''./a.py'', [entry (Some ''reportAttributeAccessIssue'') 4 10 (Some 1),
                    entry (Some ''reportDeprecated'') 0 3 (Some 1)]) \<in> set (files sample_written)"
    by (simp add: sample_written_def)
  show ?thesis
    using 1 2 sample_run_new sample_write
      baseline_holds_no_plain_hints [OF sample_run_new,
        of "''./a.py''" "[entry (Some ''reportAttributeAccessIssue'') 4 10 (Some 1),
                       entry (Some ''reportDeprecated'') 0 3 (Some 1)]"]
    by simp
qed

subsection \<open>Matching against the baseline\<close>

text \<open>
  C2, as the claim states it, fails: a diagnostic that matches a baseline entry and whose
  rule has no hint tier is not taken out of the returned list. In the sample project the
  attribute error of \<^verbatim>\<open>a.py\<close> matches its entry, no tier holds its rule, and the list
  that \<^verbatim>\<open>sortDiagnosticsAndMatchBaseline\<close> returns holds it, marked as baselined.
\<close>

theorem matched_diagnostic_stays_in_result:
  "getBaselinedErrorsForFile sample sample_disk ''/p'' ''/p/a.py''
     = Inr [entry (Some ''reportAttributeAccessIssue'') 4 10 (Some 1),
            entry (Some ''reportDeprecated'') 0 3 None]
   \<and> comparator (entry (Some ''reportAttributeAccessIssue'') 4 10 (Some 1))
       (diag Error ''attribute'' 15 4 15 10 (Some ''reportAttributeAccessIssue''))
   \<and> hint_copy sample (diag Error ''attribute'' 15 4 15 10 (Some ''reportAttributeAccessIssue''))
       ''reportAttributeAccessIssue'' (extraOptionDiagnosticRules sample) = None
   \<and> sortDiagnosticsAndMatchBaseline sample sample_disk ''/p'' ''/p/a.py''
       [diag Error ''attribute'' 15 4 15 10 (Some ''reportAttributeAccessIssue'')]
     = Inr [(diag Error ''attribute'' 15 4 15 10 (Some ''reportAttributeAccessIssue''))
              \<lparr>baselineStatus := Some Baselined\<rparr>]"
  by code_simp

text \<open>
  C2, amended. The function returns one element for each current diagnostic, in sorted
  order, and nothing for a baseline entry, so an entry that only the previous baseline has
  is dropped silently. A diagnostic that the diff leaves outside the unchanged runs, as it
  does with every diagnostic that no baseline entry matches, is returned unchanged. A
  diagnostic of an unchanged run is returned as its baselined copy; when its rule has no
  hint tier, the copy differs from the diagnostic in the status \<^verbatim>\<open>baselined\<close> only: it
  stays in the returned list, and \<^verbatim>\<open>diagnosticsToBaseline\<close> still takes it into a rebuilt
  baseline when its category is not a hint category. When the sorted diagnostics match the
  entries one by one, all of them are in an unchanged run.
\<close>

theorem reconcile_marks_matched:
  assumes "getBaselinedErrorsForFile E fs rootDir file = Inr baselined"
  shows "sortDiagnosticsAndMatchBaseline E fs rootDir file diags
       = Inr (map2 (\<lambda>matched d. if matched then baselined_copy E d else d)
                (matched_flags baselined (array_sort (compareDiagnostics E) diags) comparator)
                (array_sort (compareDiagnostics E) diags))
    \<and> length (matched_flags baselined (array_sort (compareDiagnostics E) diags) comparator)
       = length diags
    \<and> (\<forall>i<length diags.
          matched_flags baselined (array_sort (compareDiagnostics E) diags) comparator ! i \<longrightarrow>
          (\<exists>b\<in>set baselined. comparator b (array_sort (compareDiagnostics E) diags ! i)))
    \<and> (list_all2 comparator baselined (array_sort (compareDiagnostics E) diags) \<longrightarrow>
          matched_flags baselined (array_sort (compareDiagnostics E) diags) comparator
          = replicate (length diags) True)
    \<and> ((case rule d of
           None \<Rightarrow> True
         | Some r \<Rightarrow> r = [] \<or> (\<forall>(name, rules)\<in>set (extraOptionDiagnosticRules E). r \<notin> set rules)) \<longrightarrow>
        baselined_copy E d = d\<lparr>baselineStatus := Some Baselined\<rparr>
        \<and> (category d \<notin> {Deprecated, UnreachableCode, UnusedCode} \<longrightarrow>
             is_error_diagnostic (baselined_copy E d)))"
proof -
  let ?sorted = "array_sort (compareDiagnostics E) diags"
  have l: "length ?sorted = length diags" by (rule length_array_sort)
  have 1: "sortDiagnosticsAndMatchBaseline E fs rootDir file diags
       = Inr (map2 (\<lambda>matched d. if matched then baselined_copy E d else d)
                (matched_flags baselined ?sorted comparator) ?sorted)"
    using sortDiagnosticsAndMatchBaseline_eq [OF assms, of diags]
    by (simp add: reported_def [abs_def])
  have 2: "length (matched_flags baselined ?sorted comparator) = length diags"
    by (simp add: length_matched_flags l)
  have 3: "\<exists>b\<in>set baselined. comparator b (?sorted ! i)"
    if "i < length diags" "matched_flags baselined ?sorted comparator ! i" for i
    using that matched_flags_matched [of i ?sorted baselined comparator] by (simp add: l)
  have 4: "matched_flags baselined ?sorted comparator = replicate (length diags) True"
    if "list_all2 comparator baselined ?sorted"
    using matched_flags_all [OF that] by (simp add: l)
  have 5: "baselined_copy E d = d\<lparr>baselineStatus := Some Baselined\<rparr>
        \<and> (category d \<notin> {Deprecated, UnreachableCode, UnusedCode} \<longrightarrow>
             is_error_diagnostic (baselined_copy E d))"
    if "case rule d of None \<Rightarrow> True
         | Some r \<Rightarrow> r = [] \<or> (\<forall>(name, rules)\<in>set (extraOptionDiagnosticRules E). r \<notin> set rules)"
    using baselined_copy_no_tier [OF that] by (simp add: is_error_diagnostic_def)
  show ?thesis
    using 1 2 3 4 5 by blast
qed

text \<open>
  The three diagnostics of \<^verbatim>\<open>a.py\<close>: the index error is new and is returned as it is,
  the attribute error is returned with the status \<^verbatim>\<open>baselined\<close>, and the deprecation
  as a hint.
\<close>

theorem reconcile_marks_matched_witness:
  "getBaselinedErrorsForFile sample sample_disk ''/p'' ''/p/a.py''
     = Inr [entry (Some ''reportAttributeAccessIssue'') 4 10 (Some 1),
            entry (Some ''reportDeprecated'') 0 3 None]
   \<and> matched_flags [entry (Some ''reportAttributeAccessIssue'') 4 10 (Some 1),
                     entry (Some ''reportDeprecated'') 0 3 None]
        (array_sort (compareDiagnostics sample) sample_diagnostics) comparator
      = [False, True, True]
   \<and> sortDiagnosticsAndMatchBaseline sample sample_disk ''/p'' ''/p/a.py'' sample_diagnostics
     = Inr [diag Error ''index'' 2 4 2 10 (Some ''reportIndexIssue''),
            (diag Error ''attribute'' 15 4 15 10 (Some ''reportAttributeAccessIssue''))
              \<lparr>baselineStatus := Some Baselined\<rparr>,
            (diag Deprecated ''deprecated'' 20 0 20 3 (Some ''reportDeprecated''))
              \<lparr>baselineStatus := Some BaselinedWithHint\<rparr>]
   \<and> list_all2 comparator
        [entry (Some ''reportAttributeAccessIssue'') 4 10 (Some 1),
         entry (Some ''reportDeprecated'') 0 3 None]
        (array_sort (compareDiagnostics sample) (tl (rev sample_diagnostics)))
   \<and> matched_flags [entry (Some ''reportAttributeAccessIssue'') 4 10 (Some 1),
                     entry (Some ''reportDeprecated'') 0 3 None]
        (array_sort (compareDiagnostics sample) (tl (rev sample_diagnostics))) comparator
      = [True, True]
   \<and> is_error_diagnostic
       (baselined_copy sample
          (diag Error ''attribute'' 15 4 15 10 (Some ''reportAttributeAccessIssue'')))"
proof -
  let ?b = "[entry (Some ''reportAttributeAccessIssue'') 4 10 (Some 1),
             entry (Some ''reportDeprecated'') 0 3 None]"
  let ?d = "diag Error ''attribute'' 15 4 15 10 (Some ''reportAttributeAccessIssue'')"
  have h: "getBaselinedErrorsForFile sample sample_disk ''/p'' ''/p/a.py'' = Inr ?b"
    by code_simp
  have f: "matched_flags ?b (array_sort (compareDiagnostics sample) sample_diagnostics) comparator
      = [False, True, True]"
    by code_simp
  have s: "array_sort (compareDiagnostics sample) sample_diagnostics
      = [diag Error ''index'' 2 4 2 10 (Some ''reportIndexIssue''),
         diag Error ''attribute'' 15 4 15 10 (Some ''reportAttributeAccessIssue''),
         diag Warning ''deprecated'' 20 0 20 3 (Some ''reportDeprecated'')]"
    by code_simp
  have f': "matched_flags ?b
        [diag Error ''index'' 2 4 2 10 (Some ''reportIndexIssue''),
         diag Error ''attribute'' 15 4 15 10 (Some ''reportAttributeAccessIssue''),
         diag Warning ''deprecated'' 20 0 20 3 (Some ''reportDeprecated'')] comparator
      = [False, True, True]"
    by code_simp
  have c1: "baselined_copy sample ?d = ?d\<lparr>baselineStatus := Some Baselined\<rparr>"
    by code_simp
  have c2: "baselined_copy sample (diag Warning ''deprecated'' 20 0 20 3 (Some ''reportDeprecated''))
      = (diag Deprecated ''deprecated'' 20 0 20 3 (Some ''reportDeprecated''))
              \<lparr>baselineStatus := Some BaselinedWithHint\<rparr>"
    by code_simp
  have a: "list_all2 comparator ?b
        (array_sort (compareDiagnostics sample) (tl (rev sample_diagnostics)))"
    by code_simp
  have n: "case rule ?d of None \<Rightarrow> True
         | Some r \<Rightarrow> r = [] \<or> (\<forall>(name, rules)\<in>set (extraOptionDiagnosticRules sample). r \<notin> set rules)"
    by code_simp
  have t: "category ?d \<notin> {Deprecated, UnreachableCode, UnusedCode}"
    by (simp add: diag_def)
  have l: "replicate (length (tl (rev sample_diagnostics))) True = [True, True]"
    by (simp add: sample_diagnostics_def)
  note T = reconcile_marks_matched [OF h, of sample_diagnostics ?d]
  note T2 = reconcile_marks_matched [OF h, of "tl (rev sample_diagnostics)" ?d]
  have r: "sortDiagnosticsAndMatchBaseline sample sample_disk ''/p'' ''/p/a.py'' sample_diagnostics
     = Inr [diag Error ''index'' 2 4 2 10 (Some ''reportIndexIssue''),
            ?d\<lparr>baselineStatus := Some Baselined\<rparr>,
            (diag Deprecated ''deprecated'' 20 0 20 3 (Some ''reportDeprecated''))
              \<lparr>baselineStatus := Some BaselinedWithHint\<rparr>]"
    using T [THEN conjunct1] unfolding s by (simp add: f' c1 c2)
  have g: "matched_flags ?b
        (array_sort (compareDiagnostics sample) (tl (rev sample_diagnostics))) comparator
      = [True, True]"
    using T2 [THEN conjunct2, THEN conjunct2, THEN conjunct2, THEN conjunct1] a
    unfolding l by blast
  have e: "is_error_diagnostic (baselined_copy sample ?d)"
    using T [THEN conjunct2, THEN conjunct2, THEN conjunct2, THEN conjunct2] n t by blast
  show ?thesis
    using h f r a g e by blast
qed

text \<open>
  C5. A diagnostic of an unchanged run whose rule is in one or more hint tiers is returned
  once, as the copy with the category of the first tier, in the order of
  \<^verbatim>\<open>extraOptionDiagnosticRules\<close>, that holds the rule, and with the status
  \<^verbatim>\<open>baselined with hint\<close>; the returned list has one element for each diagnostic. Rule
  identifiers are names, and the empty string, which \<^verbatim>\<open>if (diagnosticRule)\<close> takes for
  no rule, is none.
\<close>

theorem hint_demotion_first_tier:
  assumes "getBaselinedErrorsForFile E fs rootDir file = Inr baselined"
    and "extraOptionDiagnosticRules E = pre @ (name, rules) # post"
    and "\<forall>(n, rs)\<in>set pre. r \<notin> set rs" and "r \<in> set rules" and "r \<noteq> []"
  shows "\<exists>res. sortDiagnosticsAndMatchBaseline E fs rootDir file diags = Inr res
    \<and> length res = length diags
    \<and> (\<forall>i<length diags.
          matched_flags baselined (array_sort (compareDiagnostics E) diags) comparator ! i
          \<and> rule (array_sort (compareDiagnostics E) diags ! i) = Some r \<longrightarrow>
          res ! i = (array_sort (compareDiagnostics E) diags ! i)
                      \<lparr>category := convertLevelToCategory E name,
                       baselineStatus := Some BaselinedWithHint\<rparr>)"
proof -
  let ?sorted = "array_sort (compareDiagnostics E) diags"
  let ?flags = "matched_flags baselined ?sorted comparator"
  let ?res = "map2 (reported E) ?flags ?sorted"
  have l: "length ?sorted = length diags" by (rule length_array_sort)
  have lf: "length ?flags = length diags" by (simp add: length_matched_flags l)
  have 1: "sortDiagnosticsAndMatchBaseline E fs rootDir file diags = Inr ?res"
    by (rule sortDiagnosticsAndMatchBaseline_eq [OF assms(1)])
  have 2: "length ?res = length diags" by (simp add: l lf)
  have 3: "?res ! i = (?sorted ! i)\<lparr>category := convertLevelToCategory E name,
                                    baselineStatus := Some BaselinedWithHint\<rparr>"
    if "i < length diags" "?flags ! i" "rule (?sorted ! i) = Some r" for i
  proof -
    have "?res ! i = reported E (?flags ! i) (?sorted ! i)"
      using that(1) by (simp add: l lf)
    also have "\<dots> = baselined_copy E (?sorted ! i)"
      using that(2) by (simp add: reported_def)
    also have "\<dots> = (?sorted ! i)\<lparr>category := convertLevelToCategory E name,
                                  baselineStatus := Some BaselinedWithHint\<rparr>"
      using that(3) assms(5,2,3,4) by (rule baselined_copy_first_tier)
    finally show ?thesis .
  qed
  show ?thesis
    using 1 2 3 by blast
qed

text \<open>
  In the environment where one rule is in the tiers \<^verbatim>\<open>unreachable\<close> and
  \<^verbatim>\<open>deprecated\<close>, a baselined diagnostic of that rule is returned once, as unreachable
  code.
\<close>

theorem hint_demotion_first_tier_witness:
  "getBaselinedErrorsForFile overlapping overlapping_disk ''/p'' ''/p/a.py''
     = Inr [entry (Some ''reportUnnecessaryComparison'') 3 9 (Some 1)]
   \<and> extraOptionDiagnosticRules overlapping
       = [(''unused'', [''reportUnusedImport''])]
         @ (''unreachable'', [''reportUnnecessaryComparison'', ''reportUnreachable''])
         # [(''deprecated'', [''reportUnnecessaryComparison'', ''reportDeprecated''])]
   \<and> matched_flags [entry (Some ''reportUnnecessaryComparison'') 3 9 (Some 1)]
        (array_sort (compareDiagnostics overlapping)
           [diag Error ''always true'' 7 3 7 9 (Some ''reportUnnecessaryComparison'')])
        comparator ! 0
   \<and> sortDiagnosticsAndMatchBaseline overlapping overlapping_disk ''/p'' ''/p/a.py''
        [diag Error ''always true'' 7 3 7 9 (Some ''reportUnnecessaryComparison'')]
     = Inr [(diag UnreachableCode ''always true'' 7 3 7 9 (Some ''reportUnnecessaryComparison''))
              \<lparr>baselineStatus := Some BaselinedWithHint\<rparr>]"
proof -
  let ?d = "diag Error ''always true'' 7 3 7 9 (Some ''reportUnnecessaryComparison'')"
  let ?b = "[entry (Some ''reportUnnecessaryComparison'') 3 9 (Some 1)]"
  have h: "getBaselinedErrorsForFile overlapping overlapping_disk ''/p'' ''/p/a.py'' = Inr ?b"
    by code_simp
  have t: "extraOptionDiagnosticRules overlapping
       = [(''unused'', [''reportUnusedImport''])]
         @ (''unreachable'', [''reportUnnecessaryComparison'', ''reportUnreachable''])
         # [(''deprecated'', [''reportUnnecessaryComparison'', ''reportDeprecated''])]"
    by (simp add: overlapping_def)
  have p: "\<forall>(n, rs)\<in>set [(''unused'', [''reportUnusedImport''])].
             ''reportUnnecessaryComparison'' \<notin> set rs"
    by simp
  have s: "array_sort (compareDiagnostics overlapping) [?d] = [?d]"
    by (simp add: array_sort_def)
  have f: "matched_flags ?b [?d] comparator = [True]"
    by code_simp
  have c: "convertLevelToCategory overlapping ''unreachable'' = UnreachableCode"
    by code_simp
  have q1: "''reportUnnecessaryComparison''
              \<in> set [''reportUnnecessaryComparison'', ''reportUnreachable'']"
    by simp
  have q2: "''reportUnnecessaryComparison'' \<noteq> []"
    by simp
  have ru: "rule ?d = Some ''reportUnnecessaryComparison''"
    by (simp add: diag_def)
  note T = hint_demotion_first_tier [OF h t p q1 q2, of "[?d]", unfolded s f c]
  from T obtain res where
    r: "sortDiagnosticsAndMatchBaseline overlapping overlapping_disk ''/p'' ''/p/a.py'' [?d] = Inr res"
    and n: "length res = length [?d]"
    and a: "\<forall>i<length [?d]. [True] ! i \<and> rule ([?d] ! i) = Some ''reportUnnecessaryComparison'' \<longrightarrow>
              res ! i = ([?d] ! i)\<lparr>category := UnreachableCode,
                                   baselineStatus := Some BaselinedWithHint\<rparr>"
    by blast
  have e: "res ! 0 = ?d\<lparr>category := UnreachableCode, baselineStatus := Some BaselinedWithHint\<rparr>"
    using a [rule_format, of 0] ru by simp
  have "res = [?d\<lparr>category := UnreachableCode, baselineStatus := Some BaselinedWithHint\<rparr>]"
    using n e by (cases res) auto
  also have "\<dots> = [(diag UnreachableCode ''always true'' 7 3 7 9 (Some ''reportUnnecessaryComparison''))
              \<lparr>baselineStatus := Some BaselinedWithHint\<rparr>]"
    by (simp add: diag_def)
  finally show ?thesis
    using h t r by (simp add: s f)
qed

subsection \<open>The order of the diagnostics\<close>

text \<open>
  C8, as the claim states it, fails. The sort is stable and \<^verbatim>\<open>compareDiagnostics\<close>, by
  start line, start column and rule, takes two diagnostics of one rule that start at one
  position for equal; they stay in the order of their emission. Two such diagnostics, in
  the file \<^verbatim>\<open>b.py\<close> that the baseline does not list, are returned in the order in
  which they were given.
\<close>

theorem reconcile_depends_on_emission_order:
  "mset [diag Error ''second'' 1 0 1 9 (Some ''reportCallIssue''),
         diag Error ''first'' 1 0 1 5 (Some ''reportCallIssue'')]
     = mset [diag Error ''first'' 1 0 1 5 (Some ''reportCallIssue''),
             diag Error ''second'' 1 0 1 9 (Some ''reportCallIssue'')]
   \<and> sortDiagnosticsAndMatchBaseline sample sample_disk ''/p'' ''/p/b.py''
        [diag Error ''first'' 1 0 1 5 (Some ''reportCallIssue''),
         diag Error ''second'' 1 0 1 9 (Some ''reportCallIssue'')]
      = Inr [diag Error ''first'' 1 0 1 5 (Some ''reportCallIssue''),
             diag Error ''second'' 1 0 1 9 (Some ''reportCallIssue'')]
   \<and> sortDiagnosticsAndMatchBaseline sample sample_disk ''/p'' ''/p/b.py''
        [diag Error ''second'' 1 0 1 9 (Some ''reportCallIssue''),
         diag Error ''first'' 1 0 1 5 (Some ''reportCallIssue'')]
      = Inr [diag Error ''second'' 1 0 1 9 (Some ''reportCallIssue''),
             diag Error ''first'' 1 0 1 5 (Some ''reportCallIssue'')]
   \<and> sortDiagnosticsAndMatchBaseline sample sample_disk ''/p'' ''/p/b.py''
        [diag Error ''first'' 1 0 1 5 (Some ''reportCallIssue''),
         diag Error ''second'' 1 0 1 9 (Some ''reportCallIssue'')]
      \<noteq> sortDiagnosticsAndMatchBaseline sample sample_disk ''/p'' ''/p/b.py''
        [diag Error ''second'' 1 0 1 9 (Some ''reportCallIssue''),
         diag Error ''first'' 1 0 1 5 (Some ''reportCallIssue'')]"
proof -
  let ?d1 = "diag Error ''first'' 1 0 1 5 (Some ''reportCallIssue'')"
  let ?d2 = "diag Error ''second'' 1 0 1 9 (Some ''reportCallIssue'')"
  have 1: "sortDiagnosticsAndMatchBaseline sample sample_disk ''/p'' ''/p/b.py'' [?d1, ?d2]
      = Inr [?d1, ?d2]"
    by code_simp
  have 2: "sortDiagnosticsAndMatchBaseline sample sample_disk ''/p'' ''/p/b.py'' [?d2, ?d1]
      = Inr [?d2, ?d1]"
    by code_simp
  have 3: "?d1 \<noteq> ?d2" by (simp add: diag_def)
  have 4: "mset [?d2, ?d1] = mset [?d1, ?d2]" by simp
  show ?thesis
    unfolding 1 2 using 3 4 by simp
qed

text \<open>
  C8, amended. \<^verbatim>\<open>sortDiagnosticsAndMatchBaseline\<close> sorts by \<^verbatim>\<open>compareDiagnostics\<close>
  and the sort is stable: when the comparison function orders the diagnostics of the input
  consistently, the sorted list is in ascending order and the diagnostics that tie with
  one another are in it in the order of their emission; the result has, position by
  position, the diagnostics of the sorted list, each as it is or as its baselined copy.
  So two permutations of the same diagnostics have the same result, the error or the
  returned list, and with it the same baseline rebuilt from that list, when they have
  the diagnostics that tie in the same order, and in particular when no two different
  diagnostics tie.
\<close>

theorem reconcile_order_independent:
  assumes "total_preorder_on_list (compareDiagnostics E) xs" and "mset ys = mset xs"
  shows "sorted_wrt (precedes (compareDiagnostics E)) (array_sort (compareDiagnostics E) xs)
    \<and> (\<forall>x\<in>set xs. filter (ties (compareDiagnostics E) x) (array_sort (compareDiagnostics E) xs)
                     = filter (ties (compareDiagnostics E) x) xs)
    \<and> (getBaselinedErrorsForFile E fs rootDir file = Inr baselined \<longrightarrow>
         sortDiagnosticsAndMatchBaseline E fs rootDir file xs =
           Inr (map2 (reported E)
                  (matched_flags baselined (array_sort (compareDiagnostics E) xs) comparator)
                  (array_sort (compareDiagnostics E) xs)))
    \<and> (same_tie_order (compareDiagnostics E) xs ys \<longrightarrow>
         sortDiagnosticsAndMatchBaseline E fs rootDir file ys
           = sortDiagnosticsAndMatchBaseline E fs rootDir file xs)
    \<and> (no_ties (compareDiagnostics E) xs \<longrightarrow>
         sortDiagnosticsAndMatchBaseline E fs rootDir file ys
           = sortDiagnosticsAndMatchBaseline E fs rootDir file xs)"
proof -
  let ?c = "compareDiagnostics E"
  have 1: "sorted_wrt (precedes ?c) (array_sort ?c xs)"
    using assms(1) by (rule sorted_array_sort)
  have 2: "\<forall>x\<in>set xs. filter (ties ?c x) (array_sort ?c xs) = filter (ties ?c x) xs"
    using filter_ties_array_sort [OF assms(1)] by blast
  have 3: "sortDiagnosticsAndMatchBaseline E fs rootDir file xs =
      Inr (map2 (reported E) (matched_flags baselined (array_sort ?c xs) comparator)
             (array_sort ?c xs))"
    if "getBaselinedErrorsForFile E fs rootDir file = Inr baselined"
    using that by (rule sortDiagnosticsAndMatchBaseline_eq)
  have 4: "sortDiagnosticsAndMatchBaseline E fs rootDir file ys
      = sortDiagnosticsAndMatchBaseline E fs rootDir file xs"
    if "same_tie_order ?c xs ys"
    using array_sort_same_tie_order [OF assms that]
    by (simp add: sortDiagnosticsAndMatchBaseline_def)
  have 5: "sortDiagnosticsAndMatchBaseline E fs rootDir file ys
      = sortDiagnosticsAndMatchBaseline E fs rootDir file xs"
    if "no_ties ?c xs"
    using 4 [OF no_ties_same_tie_order [OF assms(1) that assms(2)]] .
  show ?thesis
    using 1 2 3 4 5 by blast
qed

text \<open>
  The four diagnostics of which the second and the fourth tie, for the file \<^verbatim>\<open>b.py\<close>
  that the baseline does not list: the sort puts the second in front of the fourth, as
  they were emitted, and the other order of emission that leaves them so has the same
  result. The three diagnostics of \<^verbatim>\<open>a.py\<close> start on three lines; in the reverse
  order of emission their result is the same.
\<close>

theorem reconcile_order_independent_witness:
  "total_preorder_on_list (compareDiagnostics sample) tied_diagnostics
   \<and> mset tied_diagnostics_again = mset tied_diagnostics
   \<and> tied_diagnostics_again \<noteq> tied_diagnostics
   \<and> ties (compareDiagnostics sample) (tied_diagnostics ! 1) (tied_diagnostics ! 3)
   \<and> tied_diagnostics ! 1 \<noteq> tied_diagnostics ! 3
   \<and> sorted_wrt (precedes (compareDiagnostics sample)) tied_diagnostics_sorted
   \<and> filter (ties (compareDiagnostics sample) (tied_diagnostics ! 1)) tied_diagnostics_sorted
       = [tied_diagnostics ! 1, tied_diagnostics ! 3]
   \<and> getBaselinedErrorsForFile sample sample_disk ''/p'' ''/p/b.py'' = Inr []
   \<and> sortDiagnosticsAndMatchBaseline sample sample_disk ''/p'' ''/p/b.py'' tied_diagnostics
       = Inr tied_diagnostics_sorted
   \<and> same_tie_order (compareDiagnostics sample) tied_diagnostics tied_diagnostics_again
   \<and> sortDiagnosticsAndMatchBaseline sample sample_disk ''/p'' ''/p/b.py'' tied_diagnostics_again
       = Inr tied_diagnostics_sorted
   \<and> total_preorder_on_list (compareDiagnostics sample) sample_diagnostics
   \<and> no_ties (compareDiagnostics sample) sample_diagnostics
   \<and> mset (rev sample_diagnostics) = mset sample_diagnostics
   \<and> rev sample_diagnostics \<noteq> sample_diagnostics
   \<and> sortDiagnosticsAndMatchBaseline sample sample_disk ''/p'' ''/p/a.py'' (rev sample_diagnostics)
     = sortDiagnosticsAndMatchBaseline sample sample_disk ''/p'' ''/p/a.py'' sample_diagnostics"
proof -
  let ?c = "compareDiagnostics sample"
  have p: "total_preorder_on_list ?c tied_diagnostics"
    by code_simp
  have m: "mset tied_diagnostics_again = mset tied_diagnostics"
    by (simp add: tied_diagnostics_again_def tied_diagnostics_def)
  have n: "tied_diagnostics_again \<noteq> tied_diagnostics"
    by (simp add: tied_diagnostics_again_def tied_diagnostics_def diag_def)
  have t: "ties ?c (tied_diagnostics ! 1) (tied_diagnostics ! 3)"
    by code_simp
  have d: "tied_diagnostics ! 1 \<noteq> tied_diagnostics ! 3"
    by (simp add: tied_diagnostics_def diag_def)
  have i: "tied_diagnostics ! 1 \<in> set tied_diagnostics"
    by (simp add: tied_diagnostics_def)
  have s: "array_sort ?c tied_diagnostics = tied_diagnostics_sorted"
    by code_simp
  have f: "filter (ties ?c (tied_diagnostics ! 1)) tied_diagnostics
      = [tied_diagnostics ! 1, tied_diagnostics ! 3]"
    by code_simp
  have b: "getBaselinedErrorsForFile sample sample_disk ''/p'' ''/p/b.py'' = Inr []"
    by code_simp
  have r: "map2 (reported sample) (matched_flags [] tied_diagnostics_sorted comparator)
      tied_diagnostics_sorted = tied_diagnostics_sorted"
    by code_simp
  have o: "same_tie_order ?c tied_diagnostics tied_diagnostics_again"
    by code_simp
  note T = reconcile_order_independent [OF p m, of sample_disk "''/p''" "''/p/b.py''" "[]"]
  have 1: "sorted_wrt (precedes ?c) tied_diagnostics_sorted"
    using T [THEN conjunct1] unfolding s .
  have 2: "filter (ties ?c (tied_diagnostics ! 1)) tied_diagnostics_sorted
      = [tied_diagnostics ! 1, tied_diagnostics ! 3]"
    using T [THEN conjunct2, THEN conjunct1, rule_format, OF i] unfolding s f .
  have 3: "sortDiagnosticsAndMatchBaseline sample sample_disk ''/p'' ''/p/b.py'' tied_diagnostics
      = Inr tied_diagnostics_sorted"
    using T [THEN conjunct2, THEN conjunct2, THEN conjunct1, rule_format, OF b]
    unfolding s r .
  have 4: "sortDiagnosticsAndMatchBaseline sample sample_disk ''/p'' ''/p/b.py'' tied_diagnostics_again
      = Inr tied_diagnostics_sorted"
    using T [THEN conjunct2, THEN conjunct2, THEN conjunct2, THEN conjunct1, rule_format, OF o]
    unfolding 3 .
  have p': "total_preorder_on_list ?c sample_diagnostics"
    by code_simp
  have q': "no_ties ?c sample_diagnostics"
    by code_simp
  have m': "mset (rev sample_diagnostics) = mset sample_diagnostics"
    by simp
  have n': "rev sample_diagnostics \<noteq> sample_diagnostics"
    by (simp add: sample_diagnostics_def diag_def)
  have 5: "sortDiagnosticsAndMatchBaseline sample sample_disk ''/p'' ''/p/a.py'' (rev sample_diagnostics)
      = sortDiagnosticsAndMatchBaseline sample sample_disk ''/p'' ''/p/a.py'' sample_diagnostics"
    using reconcile_order_independent [OF p' m', of sample_disk "''/p''" "''/p/a.py''" "[]",
        THEN conjunct2, THEN conjunct2, THEN conjunct2, THEN conjunct2, rule_format, OF q'] .
  show ?thesis
    using p m n t d 1 2 b 3 o 4 p' q' m' n' 5 by blast
qed
end
